theory Spec2Isabelle
  imports Main "HOL-Library.Word"
begin

unbundle bit_operations_syntax

section \<open>Nokia n810 battery management (drivers/cbus/n810bm_main.c)\<close>

text \<open>
  C types are modelled by words of their width: \<open>u8\<close>, \<open>u16\<close>, \<open>u32\<close> and \<open>int\<close>
  (a 32-bit word read through \<open>sint\<close> where the code compares it as a signed value).
  The n810 is a 32-bit ARM machine, so \<open>unsigned int\<close>, \<open>int\<close> and \<open>unsigned long\<close>
  all have 32 bits.
\<close>

type_synonym u8 = "8 word"
type_synonym u16 = "16 word"
type_synonym u32 = "32 word"
type_synonym s32 = "32 word"

subsection \<open>Measurement layer\<close>

text \<open>
  \<open>retu_read_adc\<close> belongs to the Retu chip driver. Its results are an input of the
  model: \<open>rd i\<close> is what the \<open>i\<close>-th call on the channel returns during the operation at
  hand, a negative \<open>int\<close> being an error code.

  \<open>retu_adc_average\<close>: the loop body of the source is \<open>retu_adc_sum\<close>, which counts the
  remaining passes down; \<open>value\<close> is an \<open>unsigned int\<close>, so the sum wraps modulo \<open>2^32\<close>
  and the division is unsigned.
\<close>

fun retu_adc_sum :: "(nat \<Rightarrow> s32) \<Rightarrow> nat \<Rightarrow> nat \<Rightarrow> u32 \<Rightarrow> s32 + u32" where
  "retu_adc_sum rd i 0 val = Inr val"
| "retu_adc_sum rd i (Suc k) val =
     (let ret = rd i in
      if ret <s 0 then Inl ret
      else retu_adc_sum rd (Suc i) k (val + ret))"

definition retu_adc_average :: "(nat \<Rightarrow> s32) \<Rightarrow> nat \<Rightarrow> s32" where
  "retu_adc_average rd nr_passes =
     (if nr_passes = 0 then 0
      else case retu_adc_sum rd 0 nr_passes 0 of
             Inl ret \<Rightarrow> ret
           | Inr val \<Rightarrow> val div of_nat nr_passes)"

datatype n810bm_capacity = N810BM_CAP_UNKNOWN | N810BM_CAP_NONE | N810BM_CAP_1500MAH

text \<open>The enum's values, for the places where the source casts it to \<open>int\<close>.\<close>

fun capacity_int :: "n810bm_capacity \<Rightarrow> int" where
  "capacity_int N810BM_CAP_UNKNOWN = -1"
| "capacity_int N810BM_CAP_NONE = 0"
| "capacity_int N810BM_CAP_1500MAH = 1500"

text \<open>
  \<open>n810bm_read_batt_capacity\<close>: \<open>hyst\<close> is an \<open>unsigned int\<close>, so both comparisons are
  unsigned comparisons of 32-bit values; they are reached only with \<open>adc \<ge> 0\<close>.
\<close>

definition n810bm_read_batt_capacity :: "(nat \<Rightarrow> s32) \<Rightarrow> n810bm_capacity" where
  "n810bm_read_batt_capacity rd =
     (let hyst = (20 :: u32);
          adc = retu_adc_average rd 5
      in if adc <s 0 then N810BM_CAP_UNKNOWN
         else if adc \<ge> 0x3B5 - hyst \<and> adc \<le> 0x3B5 + hyst then N810BM_CAP_1500MAH
         else N810BM_CAP_UNKNOWN)"

text \<open>The sum of the five samples as natural numbers, for stating the average.\<close>

definition adc_sum5 :: "(nat \<Rightarrow> s32) \<Rightarrow> nat" where
  "adc_sum5 rd = unat (rd 0) + unat (rd 1) + unat (rd 2) + unat (rd 3) + unat (rd 4)"

text \<open>
  The kernel's \<open>clamp(val, min, max)\<close> macro: \<open>val < min ? min : val\<close>, then
  \<open>val > max ? max : val\<close>, here at type \<open>unsigned int\<close>.
\<close>

definition clamp_u32 :: "u32 \<Rightarrow> u32 \<Rightarrow> u32 \<Rightarrow> u32" where
  "clamp_u32 val lo hi =
     (let v = (if val < lo then lo else val) in if v > hi then hi else v)"

definition n810bm_mvolt2percent :: "u32 \<Rightarrow> u32" where
  "n810bm_mvolt2percent mv0 =
     (let minv = 3700; maxv = 4150;
          mv = clamp_u32 mv0 minv maxv;
          percent = (mv - minv) * 100 div (maxv - minv)
      in percent)"

text \<open>
  \<open>n810bm_measure_batt_voltage\<close>: \<open>scale\<close> is an \<open>unsigned int\<close>, so the product, the
  divisions and the sum are unsigned 32-bit operations; the result is returned as an
  \<open>int\<close>, a negative value being the error code of the failed read.
\<close>

definition n810bm_measure_batt_voltage :: "(nat \<Rightarrow> s32) \<Rightarrow> s32" where
  "n810bm_measure_batt_voltage rd =
     (let scale = (1000 :: u32);
          adc = retu_adc_average rd 5
      in if adc <s 0 then adc
         else if adc \<le>s 0x37 then 2800
         else 2800 + ((adc - 0x37) * (((4200 - 2800) * scale) div (0x236 - 0x37))) div scale)"

subsection \<open>Error codes\<close>

text \<open>The kernel's errno values, used negated as \<open>int\<close> results.\<close>

definition ENOENT :: s32 where "ENOENT = 2"
definition EIO :: s32 where "EIO = 5"
definition ENODEV :: s32 where "ENODEV = 19"
definition EINVAL :: s32 where "EINVAL = 22"
definition EILSEQ :: s32 where "EILSEQ = 84"
definition EOPNOTSUPP :: s32 where "EOPNOTSUPP = 95"

text \<open>
  \<open>n810bm_emergency\<close> is declared \<open>NORET_TYPE\<close>: it logs the message and halts the
  device through \<open>cbus_emergency\<close>. A function that may reach it returns an outcome.
\<close>

datatype 'a outcome = Emergency string | Done 'a

subsection \<open>The Tahvo chip behind the register helpers\<close>

text \<open>
  The charger control register \<open>TAHVO_REG_CHGCTL\<close> is only ever accessed by
  setting and clearing named masks. The header that gives the masks their bit positions
  is not part of the sources, so the register is modelled as the set of the named bits
  that are set; every \<open>tahvo_set\<close>, \<open>tahvo_clear\<close> and \<open>tahvo_maskset\<close> of the file
  passes \<open>TAHVO_REG_CHGCTL\<close>. The two registers written as values are 16 bits wide.
  \<open>ops\<close> is the trace of the register accesses issued, oldest first.
\<close>

datatype chgctl_bit =
    TAHVO_REG_CHGCTL_EN
  | TAHVO_REG_CHGCTL_PWMOVR
  | TAHVO_REG_CHGCTL_PWMOVRZERO
  | TAHVO_REG_CHGCTL_CURMEAS
  | TAHVO_REG_CHGCTL_CURTIMRST

datatype tahvo_value_reg = TAHVO_REG_CHGCURR | TAHVO_REG_BATCURRTIMER

datatype tahvo_op =
    OP_WRITE tahvo_value_reg u16
  | OP_SET_CLEAR "chgctl_bit set" "chgctl_bit set"
  | OP_ENABLE_IRQ
  | OP_DISABLE_IRQ

record tahvo_chip =
  chgctl :: "chgctl_bit set"
  chgcurr :: u16
  batcurrtimer :: u16
  batcurr_irq :: bool
  ops :: "tahvo_op list"

text \<open>
  Modelled from the spec: \<open>tahvo_set_clear_reg_bits\<close>, \<open>tahvo_write_reg\<close>,
  \<open>tahvo_enable_irq\<close> and \<open>tahvo_disable_irq\<close> of the Tahvo chip driver are missing from
  the sources. The spec lists them as the primitives \<open>write(reg,val)\<close>,
  \<open>set_bits(reg,mask)\<close>, \<open>clear_bits(reg,mask)\<close> and enable/disable of an interrupt;
  \<open>tahvo_set_clear_reg_bits reg set clear\<close> clears the bits of \<open>clear\<close> and then sets the
  bits of \<open>set\<close>.
\<close>

definition tahvo_set_clear_reg_bits :: "tahvo_chip \<Rightarrow> chgctl_bit set \<Rightarrow> chgctl_bit set \<Rightarrow> tahvo_chip" where
  "tahvo_set_clear_reg_bits t set_bits clear_bits =
     t\<lparr>chgctl := (chgctl t - clear_bits) \<union> set_bits,
       ops := ops t @ [OP_SET_CLEAR set_bits clear_bits]\<rparr>"

definition tahvo_write_reg :: "tahvo_chip \<Rightarrow> tahvo_value_reg \<Rightarrow> u16 \<Rightarrow> tahvo_chip" where
  "tahvo_write_reg t reg v =
     (case reg of
        TAHVO_REG_CHGCURR \<Rightarrow> t\<lparr>chgcurr := v, ops := ops t @ [OP_WRITE reg v]\<rparr>
      | TAHVO_REG_BATCURRTIMER \<Rightarrow> t\<lparr>batcurrtimer := v, ops := ops t @ [OP_WRITE reg v]\<rparr>)"

definition tahvo_enable_irq :: "tahvo_chip \<Rightarrow> tahvo_chip" where
  "tahvo_enable_irq t = t\<lparr>batcurr_irq := True, ops := ops t @ [OP_ENABLE_IRQ]\<rparr>"

definition tahvo_disable_irq :: "tahvo_chip \<Rightarrow> tahvo_chip" where
  "tahvo_disable_irq t = t\<lparr>batcurr_irq := False, ops := ops t @ [OP_DISABLE_IRQ]\<rparr>"

subsection \<open>The charge algorithm\<close>

text \<open>
  Modelled from the spec: the charge algorithm (\<open>lipocharge.h\<close>, \<open>struct lipocharge\<close>,
  \<open>lipocharge_start\<close>, \<open>lipocharge_stop\<close>, \<open>lipocharge_is_charging\<close>) is missing from the
  sources. The spec describes it as a collaborator exposing \<open>start(capacity)\<close>, \<open>stop()\<close>
  and \<open>is_charging()\<close>, with the states Idle (not charging) and Charging (algorithm
  active), "transitioning only through \<open>start_charge\<close> / \<open>stop_charge\<close>"; \<open>charging\<close> is
  "owned by the charge-algorithm collaborator, queried, never set directly". So the
  start operation enters Charging and reports success, the stop operation enters Idle.
  The field \<open>lipo_capacity\<close> is the \<open>capacity\<close> member that \<open>n810bm_start_charge\<close> assigns;
  \<open>lipo_rate\<close>, \<open>lipo_top_voltage\<close> and \<open>lipo_duty_cycle_max\<close> are the members \<open>rate\<close>,
  \<open>top_voltage\<close> and \<open>duty_cycle_max\<close> that \<open>n810bm_device_init\<close> assigns (the two
  callbacks it also assigns are fixed functions and are left out).
\<close>

datatype lipocharge_state = LIPO_IDLE | LIPO_CHARGING

datatype lipocharge_rate = LIPORATE_unset | LIPORATE_p6C

record lipocharge =
  lipo_state :: lipocharge_state
  lipo_capacity :: n810bm_capacity
  lipo_rate :: lipocharge_rate
  lipo_top_voltage :: u32
  lipo_duty_cycle_max :: u32

definition lipocharge_is_charging :: "lipocharge \<Rightarrow> bool" where
  "lipocharge_is_charging c = (lipo_state c \<noteq> LIPO_IDLE)"

definition lipocharge_start :: "lipocharge \<Rightarrow> s32 \<times> lipocharge" where
  "lipocharge_start c = (0, c\<lparr>lipo_state := LIPO_CHARGING\<rparr>)"

definition lipocharge_stop :: "lipocharge \<Rightarrow> lipocharge" where
  "lipocharge_stop c = c\<lparr>lipo_state := LIPO_IDLE\<rparr>"

subsection \<open>Calibration data and controller state\<close>

text \<open>
  \<open>struct n810bm_adc_calib\<close>. The member \<open>id\<close> is named \<open>adc_id\<close> here; it has the enum's
  type, an \<open>unsigned int\<close>, and takes the values of the enum or of a byte of the blob.
\<close>

record n810bm_adc_calib =
  adc_id :: u32
  flags :: u8
  adc_groupnr :: u8
  field1 :: u32
  field2 :: u32
  field3 :: u16
  field4 :: u16

definition N810BM_PMM_ADC_BATVOLT :: u32 where "N810BM_PMM_ADC_BATVOLT = 0x01"
definition N810BM_PMM_ADC_CHGVOLT :: u32 where "N810BM_PMM_ADC_CHGVOLT = 0x02"
definition N810BM_PMM_ADC_GND2 :: u32 where "N810BM_PMM_ADC_GND2 = 0x03"
definition N810BM_PMM_ADC_BSI :: u32 where "N810BM_PMM_ADC_BSI = 0x04"
definition N810BM_PMM_ADC_BATTEMP :: u32 where "N810BM_PMM_ADC_BATTEMP = 0x05"
definition N810BM_PMM_ADC_HEADSET :: u32 where "N810BM_PMM_ADC_HEADSET = 0x06"
definition N810BM_PMM_ADC_HOOKDET :: u32 where "N810BM_PMM_ADC_HOOKDET = 0x07"
definition N810BM_PMM_ADC_LIGHTSENS :: u32 where "N810BM_PMM_ADC_LIGHTSENS = 0x08"
definition N810BM_PMM_ADC_BATCURR :: u32 where "N810BM_PMM_ADC_BATCURR = 0x0E"
definition N810BM_PMM_ADC_BKUPVOLT :: u32 where "N810BM_PMM_ADC_BKUPVOLT = 0x13"
definition N810BM_PMM_ADC_LIGHTTEMP :: u32 where "N810BM_PMM_ADC_LIGHTTEMP = 0x14"
definition N810BM_PMM_ADC_RFGP :: u32 where "N810BM_PMM_ADC_RFGP = 0x15"
definition N810BM_PMM_ADC_WBTX :: u32 where "N810BM_PMM_ADC_WBTX = 0x16"
definition N810BM_PMM_ADC_RETUTEMP :: u32 where "N810BM_PMM_ADC_RETUTEMP = 0x17"
definition N810BM_PMM_ADC_0xFE :: u32 where "N810BM_PMM_ADC_0xFE = 0xFE"

datatype n810bm_notify_flags =
    N810BM_NOTIFY_charger_present
  | N810BM_NOTIFY_charger_state
  | N810BM_NOTIFY_charger_pwm

text \<open>The enumerators' values: the bit numbers within \<open>notify_flags\<close>.\<close>

fun notify_bit :: "n810bm_notify_flags \<Rightarrow> nat" where
  "notify_bit N810BM_NOTIFY_charger_present = 0"
| "notify_bit N810BM_NOTIFY_charger_state = 1"
| "notify_bit N810BM_NOTIFY_charger_pwm = 2"

text \<open>
  \<open>struct n810bm\<close>. \<open>calib\<close> is the array \<open>calib.adc[25]\<close>. The work items are
  represented by their pending flags, \<open>tahvo\<close> is the chip reached through the
  \<open>tahvo_*\<close> helpers, \<open>retu_adcscr\<close> the last value written to \<open>RETU_REG_ADCSCR\<close>, and
  \<open>attr_files\<close> the number of attribute files of \<open>n810bm_attrs\<close> that exist.
\<close>

record n810bm =
  battery_present :: bool
  charger_present :: bool
  capacity :: n810bm_capacity
  charger_enabled :: bool
  charger :: lipocharge
  active_current_pwm :: u32
  current_measure_enabled :: s32
  calib :: "n810bm_adc_calib list"
  verbose_charge_log :: bool
  notify_flags :: u32
  notify_work :: bool
  currmeas_irq_work :: bool
  periodic_check_work :: bool
  initialized :: bool
  tahvo :: tahvo_chip
  retu_adcscr :: u16
  attr_files :: nat
  irq_requested :: bool

definition n810bm_known_battery_present :: "n810bm \<Rightarrow> bool" where
  "n810bm_known_battery_present bm =
     (battery_present bm \<and>
      capacity bm \<noteq> N810BM_CAP_UNKNOWN \<and>
      capacity bm \<noteq> N810BM_CAP_NONE)"

definition tahvo_maskset :: "n810bm \<Rightarrow> chgctl_bit set \<Rightarrow> chgctl_bit set \<Rightarrow> n810bm" where
  "tahvo_maskset bm msk set_bits = bm\<lparr>tahvo := tahvo_set_clear_reg_bits (tahvo bm) set_bits msk\<rparr>"

definition tahvo_write :: "n810bm \<Rightarrow> tahvo_value_reg \<Rightarrow> u16 \<Rightarrow> n810bm" where
  "tahvo_write bm reg v = bm\<lparr>tahvo := tahvo_write_reg (tahvo bm) reg v\<rparr>"

definition tahvo_set :: "n810bm \<Rightarrow> chgctl_bit set \<Rightarrow> n810bm" where
  "tahvo_set bm msk = bm\<lparr>tahvo := tahvo_set_clear_reg_bits (tahvo bm) msk msk\<rparr>"

definition tahvo_clear :: "n810bm \<Rightarrow> chgctl_bit set \<Rightarrow> n810bm" where
  "tahvo_clear bm msk = bm\<lparr>tahvo := tahvo_set_clear_reg_bits (tahvo bm) {} msk\<rparr>"

subsection \<open>Calibration parser\<close>

text \<open>
  \<open>struct firmware\<close>: the blob is the list of its bytes, \<open>size\<close> its length.
\<close>

type_synonym firmware = "u8 list"

definition N810BM_PMM_BLOCK_SIZE :: nat where "N810BM_PMM_BLOCK_SIZE = 0x600"
definition N810BM_PMM_GROUP_SIZE :: nat where "N810BM_PMM_GROUP_SIZE = 0x200"
definition N810BM_PMM_ELEM_SIZE :: nat where "N810BM_PMM_ELEM_SIZE = 0x10"

text \<open>
  \<open>n810bm_get_adc_calib\<close> returns a pointer into \<open>bm->calib.adc\<close> or \<open>NULL\<close>; the model
  returns the index of the slot. \<open>ARRAY_SIZE(bm->calib.adc)\<close> is 25, and the sum
  \<open>id + 1\<close> is an \<open>unsigned int\<close>. The \<open>WARN_ON\<close> only logs.
\<close>

definition n810bm_get_adc_calib :: "n810bm \<Rightarrow> u32 \<Rightarrow> nat option" where
  "n810bm_get_adc_calib bm ident =
     (let index = (if ident \<noteq> N810BM_PMM_ADC_0xFE then ident + 1 else 0)
      in if index \<ge> 25 then None else Some (unat index))"

text \<open>
  \<open>pmm_record_get\<close>: the result is the error code, or the \<open>length\<close> bytes copied into the
  buffer. On an error the buffer is left as it was.
\<close>

definition pmm_record_get :: "firmware \<Rightarrow> nat \<Rightarrow> nat \<Rightarrow> nat \<Rightarrow> nat \<Rightarrow> s32 + u8 list" where
  "pmm_record_get pmm_block len grp element offset =
     (if length pmm_block \<noteq> N810BM_PMM_BLOCK_SIZE then Inl (- EINVAL)
      else if grp \<ge> N810BM_PMM_BLOCK_SIZE div N810BM_PMM_GROUP_SIZE then Inl (- EINVAL)
      else if element \<ge> N810BM_PMM_GROUP_SIZE div N810BM_PMM_ELEM_SIZE then Inl (- EINVAL)
      else if offset \<ge> N810BM_PMM_ELEM_SIZE \<or> len > N810BM_PMM_ELEM_SIZE \<or>
              len + offset > N810BM_PMM_ELEM_SIZE then Inl (- EINVAL)
      else let active_group_mask = pmm_block ! 16
           in if active_group_mask AND push_bit grp 1 = 0 then Inl (- ENOENT)
              else Inr (map (\<lambda>k. pmm_block !
                              (grp * N810BM_PMM_GROUP_SIZE + element * N810BM_PMM_ELEM_SIZE
                               + offset + k)) [0..<len]))"

text \<open>\<open>struct group1_element\<close>, packed, 12 bytes, the two fields little-endian.\<close>

record group1_element =
  elem_id :: u8
  elem_flags :: u8
  elem_adc_groupnr :: u8
  elem_padding :: u8
  elem_field1 :: u32
  elem_field2 :: u32

definition le32_to_cpu :: "u8 \<Rightarrow> u8 \<Rightarrow> u8 \<Rightarrow> u8 \<Rightarrow> u32" where
  "le32_to_cpu b0 b1 b2 b3 =
     ucast b0 OR push_bit 8 (ucast b1) OR push_bit 16 (ucast b2) OR push_bit 24 (ucast b3)"

definition group1_element_of :: "u8 list \<Rightarrow> group1_element" where
  "group1_element_of bs =
     \<lparr>elem_id = bs ! 0, elem_flags = bs ! 1, elem_adc_groupnr = bs ! 2, elem_padding = bs ! 3,
      elem_field1 = le32_to_cpu (bs ! 4) (bs ! 5) (bs ! 6) (bs ! 7),
      elem_field2 = le32_to_cpu (bs ! 8) (bs ! 9) (bs ! 10) (bs ! 11)\<rparr>"

text \<open>
  \<open>extract_group1_elem\<close>: the loop over \<open>pmm_adc_ids\<close> is the recursion over the list of
  ids. A record that cannot be fetched is skipped (\<open>continue\<close>); a record whose id byte
  has no slot ends the extraction with \<open>-EINVAL\<close>.
\<close>

fun extract_group1_elem :: "n810bm \<Rightarrow> firmware \<Rightarrow> u32 list \<Rightarrow> u32 \<Rightarrow> u32 \<Rightarrow> s32 \<times> n810bm" where
  "extract_group1_elem bm pmm_block [] field1_mask field2_mask = (0, bm)"
| "extract_group1_elem bm pmm_block (pmm_adc_id # pmm_adc_ids) field1_mask field2_mask =
     (let element_nr = unat (pmm_adc_id + 3)
      in case pmm_record_get pmm_block 12 1 element_nr 0 of
           Inl err \<Rightarrow> extract_group1_elem bm pmm_block pmm_adc_ids field1_mask field2_mask
         | Inr bytes \<Rightarrow>
             (let elem = group1_element_of bytes
              in case n810bm_get_adc_calib bm (ucast (elem_id elem)) of
                   None \<Rightarrow> (- EINVAL, bm)
                 | Some idx \<Rightarrow>
                     (let adc_calib = calib bm ! idx;
                          bm' = (if flags adc_calib = elem_flags elem
                                 then bm\<lparr>calib := (calib bm)
                                        [idx := adc_calib\<lparr>field1 := elem_field1 elem AND field1_mask,
                                                           field2 := elem_field2 elem AND field2_mask\<rparr>]\<rparr>
                                 else bm)
                      in extract_group1_elem bm' pmm_block pmm_adc_ids field1_mask field2_mask)))"

definition pmm_adc_ids_1 :: "u32 list" where
  "pmm_adc_ids_1 = [N810BM_PMM_ADC_BATVOLT, N810BM_PMM_ADC_CHGVOLT,
                    N810BM_PMM_ADC_BKUPVOLT, N810BM_PMM_ADC_BATCURR]"

definition pmm_adc_ids_2 :: "u32 list" where
  "pmm_adc_ids_2 = [N810BM_PMM_ADC_BSI]"

definition pmm_adc_ids_3 :: "u32 list" where
  "pmm_adc_ids_3 = [N810BM_PMM_ADC_BATTEMP]"

text \<open>
  \<open>n810bm_parse_pmm_group1\<close> in its three steps: the record at group 1 / element 2 is
  fetched; if it is the record of \<open>0xFE\<close> with flags \<open>0x05\<close> it is copied to its slot
  (\<open>group1_element2\<close>); then the three lists of ids are extracted, each with its masks,
  stopping at the first error (\<open>group1_lists\<close>).
\<close>

definition group1_element2 :: "n810bm \<Rightarrow> group1_element \<Rightarrow> s32 + n810bm" where
  "group1_element2 bm elem =
     (if ucast (elem_id elem) = N810BM_PMM_ADC_0xFE \<and> elem_flags elem = 0x05
      then (case n810bm_get_adc_calib bm (ucast (elem_id elem)) of
              None \<Rightarrow> Inl (- EINVAL)
            | Some idx \<Rightarrow>
                Inr (bm\<lparr>calib := (calib bm)
                       [idx := (calib bm ! idx)\<lparr>adc_id := ucast (elem_id elem),
                                                flags := elem_flags elem,
                                                field1 := elem_field1 elem,
                                                field2 := elem_field2 elem\<rparr>]\<rparr>))
      else Inr bm)"

definition group1_lists :: "n810bm \<Rightarrow> firmware \<Rightarrow> s32 \<times> n810bm" where
  "group1_lists bm1 pmm_block =
     (case extract_group1_elem bm1 pmm_block pmm_adc_ids_1 0xFFFFFFFF 0xFFFFFFFF of
        (err, bm2) \<Rightarrow>
          if err \<noteq> 0 then (err, bm2)
          else (case extract_group1_elem bm2 pmm_block pmm_adc_ids_2 0xFFFFFFFF 0 of
                  (err, bm3) \<Rightarrow>
                    if err \<noteq> 0 then (err, bm3)
                    else (case extract_group1_elem bm3 pmm_block pmm_adc_ids_3
                                 0xFFFFFFFF 0x0000FFFF of
                            (err, bm4) \<Rightarrow>
                              if err \<noteq> 0 then (err, bm4) else (0, bm4))))"

definition n810bm_parse_pmm_group1 :: "n810bm \<Rightarrow> firmware \<Rightarrow> s32 \<times> n810bm" where
  "n810bm_parse_pmm_group1 bm pmm_block =
     (case pmm_record_get pmm_block 12 1 2 0 of
        Inl err \<Rightarrow> (err, bm)
      | Inr bytes \<Rightarrow>
          (case group1_element2 bm (group1_element_of bytes) of
             Inl err \<Rightarrow> (err, bm)
           | Inr bm1 \<Rightarrow> group1_lists bm1 pmm_block))"

definition n810bm_parse_pmm_group2 :: "n810bm \<Rightarrow> firmware \<Rightarrow> s32 \<times> n810bm" where
  "n810bm_parse_pmm_group2 bm pmm_block = (- EOPNOTSUPP, bm)"

text \<open>The literal table \<open>defaults[]\<close> of \<open>n810bm_adc_calib_set_defaults\<close>, in its order.\<close>

definition calib_default :: "u32 \<Rightarrow> u8 \<Rightarrow> u8 \<Rightarrow> u32 \<Rightarrow> u32 \<Rightarrow> u16 \<Rightarrow> u16 \<Rightarrow> n810bm_adc_calib" where
  "calib_default i f g f1 f2 f3 f4 =
     \<lparr>adc_id = i, flags = f, adc_groupnr = g, field1 = f1, field2 = f2, field3 = f3, field4 = f4\<rparr>"

definition defaults :: "n810bm_adc_calib list" where
  "defaults =
     [calib_default N810BM_PMM_ADC_HEADSET 0x00 0 0 0 0 0,
      calib_default N810BM_PMM_ADC_HOOKDET 0x00 0 0 0 0 0,
      calib_default N810BM_PMM_ADC_RFGP 0x00 0 0 0 0 0,
      calib_default N810BM_PMM_ADC_LIGHTSENS 0x00 0 0 0 0 0,
      calib_default N810BM_PMM_ADC_WBTX 0x00 0 0 0 0 0,
      calib_default N810BM_PMM_ADC_RETUTEMP 0x00 0 0 0 0 0,
      calib_default N810BM_PMM_ADC_GND2 0x00 0 0 0 0 0,
      calib_default N810BM_PMM_ADC_0xFE 0x05 1 (- 2) 13189 0 0,
      calib_default N810BM_PMM_ADC_BATVOLT 0x01 1 2527 21373 0 0,
      calib_default N810BM_PMM_ADC_CHGVOLT 0x01 1 0 129848 0 0,
      calib_default N810BM_PMM_ADC_BKUPVOLT 0x01 1 0 20000 0 0,
      calib_default N810BM_PMM_ADC_BATCURR 0x06 1 0 9660 0 0,
      calib_default N810BM_PMM_ADC_BSI 0x02 2 1169 0 0 0,
      calib_default N810BM_PMM_ADC_BATTEMP 0x03 3 265423000 298 0 0,
      calib_default N810BM_PMM_ADC_LIGHTTEMP 0x04 4 19533778 308019670 4700 2500]"

text \<open>
  \<open>n810bm_adc_calib_set_defaults\<close>: the array is cleared, every \<open>flags\<close> is set to
  \<open>0xFF\<close>, then the defaults are copied to their slots. A default without a slot is
  skipped (\<open>WARN_ON\<close>, \<open>continue\<close>).
\<close>

definition set_default :: "n810bm_adc_calib \<Rightarrow> n810bm \<Rightarrow> n810bm" where
  "set_default d bm =
     (case n810bm_get_adc_calib bm (adc_id d) of
        None \<Rightarrow> bm
      | Some idx \<Rightarrow> bm\<lparr>calib := (calib bm)[idx := d]\<rparr>)"

definition n810bm_adc_calib_set_defaults :: "n810bm \<Rightarrow> n810bm" where
  "n810bm_adc_calib_set_defaults bm =
     fold set_default defaults
       (bm\<lparr>calib := replicate 25 (calib_default 0 0xFF 0 0 0 0 0)\<rparr>)"

text \<open>
  The sanity checks of \<open>n810bm_parse_pmm_block\<close>: one step of the loop for each slot, in
  the order of the array. \<open>Inl\<close> is the jump to \<open>value_check_fail\<close> with the failing
  slot, \<open>Inr\<close> the count reached. An id that matches no \<open>case\<close> leaves the \<open>switch\<close>.
\<close>

fun sanity_checks :: "n810bm_adc_calib list \<Rightarrow> u32 \<Rightarrow> n810bm_adc_calib + u32" where
  "sanity_checks [] count = Inr count"
| "sanity_checks (adc_calib # rest) count =
     (if flags adc_calib = 0xFF then sanity_checks rest count
      else if adc_id adc_calib = N810BM_PMM_ADC_BATVOLT then
        (if field1 adc_calib < 2400 \<or> field1 adc_calib > 2700 then Inl adc_calib
         else if field2 adc_calib < 20000 \<or> field2 adc_calib > 23000 then Inl adc_calib
         else sanity_checks rest (count + 1))
      else if adc_id adc_calib = N810BM_PMM_ADC_BSI then
        (if field1 adc_calib < 1100 \<or> field1 adc_calib > 1300 then Inl adc_calib
         else sanity_checks rest (count + 1))
      else if adc_id adc_calib = N810BM_PMM_ADC_BATCURR then
        (if field2 adc_calib < 7000 \<or> field2 adc_calib > 12000 then Inl adc_calib
         else sanity_checks rest (count + 1))
      else if adc_id adc_calib = N810BM_PMM_ADC_0xFE then
        (if 14 <s field1 adc_calib \<or> field1 adc_calib <s - 14 then Inl adc_calib
         else if field2 adc_calib < 13000 \<or> field2 adc_calib > 13350 then Inl adc_calib
         else sanity_checks rest (count + 1))
      else if adc_id adc_calib = N810BM_PMM_ADC_CHGVOLT \<or>
              adc_id adc_calib = N810BM_PMM_ADC_BATTEMP \<or>
              adc_id adc_calib = N810BM_PMM_ADC_BKUPVOLT then
        sanity_checks rest (count + 1)
      else sanity_checks rest count)"

text \<open>
  \<open>n810bm_parse_pmm_block\<close>. \<open>uninit\<close> is the indeterminate content of the local
  \<open>byte\<close> before the first copy: the source tests \<open>byte\<close> also after a failed
  \<open>pmm_record_get\<close>. The errors are combined with the bitwise or of the source.
\<close>

definition n810bm_parse_pmm_block :: "n810bm \<Rightarrow> firmware \<Rightarrow> u8 \<Rightarrow> s32 \<times> n810bm" where
  "n810bm_parse_pmm_block bm pmm_block uninit =
     (let bm0 = n810bm_adc_calib_set_defaults bm;
          r0 = pmm_record_get pmm_block 1 1 0 0;
          byte0 = (case r0 of Inl e \<Rightarrow> uninit | Inr bs \<Rightarrow> bs ! 0);
          err0 = (case r0 of Inl e \<Rightarrow> e | Inr bs \<Rightarrow> 0) OR (if byte0 \<noteq> 0x01 then 1 else 0);
          r1 = pmm_record_get pmm_block 1 1 1 0;
          byte1 = (case r1 of Inl e \<Rightarrow> byte0 | Inr bs \<Rightarrow> bs ! 0);
          err1 = err0 OR (case r1 of Inl e \<Rightarrow> e | Inr bs \<Rightarrow> 0);
          err2 = err1 OR (if byte1 \<noteq> 0x01 then 1 else 0)
      in case (if err2 \<noteq> 0 then n810bm_parse_pmm_group2 bm0 pmm_block
               else n810bm_parse_pmm_group1 bm0 pmm_block) of
           (err, bm1) \<Rightarrow>
             if err \<noteq> 0 then (err, bm1)
             else (case sanity_checks (calib bm1) 0 of
                     Inl adc_calib \<Rightarrow> (- EILSEQ, bm1)
                   | Inr count \<Rightarrow> if count \<noteq> 7 then (- EILSEQ, bm1) else (0, bm1)))"

subsection \<open>Notifications\<close>

text \<open>
  \<open>DEFINE_ATTR_NOTIFY(attr_name)\<close>: \<open>set_bit\<close> on \<open>notify_flags\<close>, then
  \<open>schedule_work(&bm->notify_work)\<close>.
\<close>

definition n810bm_notify :: "n810bm_notify_flags \<Rightarrow> n810bm \<Rightarrow> n810bm" where
  "n810bm_notify attr bm =
     bm\<lparr>notify_flags := set_bit (notify_bit attr) (notify_flags bm), notify_work := True\<rparr>"

definition n810bm_notify_charger_present :: "n810bm \<Rightarrow> n810bm" where
  "n810bm_notify_charger_present = n810bm_notify N810BM_NOTIFY_charger_present"

definition n810bm_notify_charger_state :: "n810bm \<Rightarrow> n810bm" where
  "n810bm_notify_charger_state = n810bm_notify N810BM_NOTIFY_charger_state"

definition n810bm_notify_charger_pwm :: "n810bm \<Rightarrow> n810bm" where
  "n810bm_notify_charger_pwm = n810bm_notify N810BM_NOTIFY_charger_pwm"

text \<open>The attribute names \<open>dev_attr_##attr_name.attr.name\<close> passed to \<open>sysfs_notify\<close>.\<close>

fun attr_name :: "n810bm_notify_flags \<Rightarrow> string" where
  "attr_name N810BM_NOTIFY_charger_present = ''charger_present''"
| "attr_name N810BM_NOTIFY_charger_state = ''charger_state''"
| "attr_name N810BM_NOTIFY_charger_pwm = ''charger_pwm''"

text \<open>
  \<open>n810bm_notify_work\<close>: \<open>xchg\<close> reads the flags and stores 0; \<open>do_notify\<close> tests
  \<open>notify_flags & (1 << N810BM_NOTIFY_##attr_name)\<close> on the value read, \<open>flgs\<close>. The result is the list of the
  \<open>sysfs_notify\<close> calls made, in order, and the new state.
\<close>

definition do_notify :: "u32 \<Rightarrow> n810bm_notify_flags \<Rightarrow> string list" where
  "do_notify flgs attr =
     (if flgs AND push_bit (notify_bit attr) 1 \<noteq> 0 then [attr_name attr] else [])"

definition n810bm_notify_work :: "n810bm \<Rightarrow> string list \<times> n810bm" where
  "n810bm_notify_work bm =
     (let flgs = notify_flags bm;
          bm' = bm\<lparr>notify_flags := 0\<rparr>
      in (do_notify flgs N810BM_NOTIFY_charger_present @
          do_notify flgs N810BM_NOTIFY_charger_state @
          do_notify flgs N810BM_NOTIFY_charger_pwm, bm'))"

subsection \<open>Current measurement\<close>

text \<open>
  \<open>n810bm_set_current_measure_timer\<close>: \<open>value + 0xF9\<close> is computed as an \<open>int\<close> and
  widened to 64 bits; the shifted product is truncated to \<open>u16\<close>.
\<close>

definition n810bm_set_current_measure_timer :: "n810bm \<Rightarrow> u16 \<Rightarrow> n810bm" where
  "n810bm_set_current_measure_timer bm millisec_interval =
     (let value0 = millisec_interval;
          value1 = (if value0 \<le> 0xF905
                  then (ucast (drop_bit 32 ((0x10624DD3 :: 64 word) *
                               ucast ((ucast value0 :: s32) + 0xF9))) :: u16) div 16
                  else 0xFF);
          bm1 = tahvo_write bm TAHVO_REG_BATCURRTIMER (value1 AND 0xFF);
          bm2 = tahvo_set bm1 {TAHVO_REG_CHGCTL_CURTIMRST};
          bm3 = tahvo_clear bm2 {TAHVO_REG_CHGCTL_CURTIMRST}
      in if millisec_interval \<noteq> 0
         then bm3\<lparr>tahvo := tahvo_enable_irq (tahvo bm3)\<rparr>
         else bm3\<lparr>tahvo := tahvo_disable_irq (tahvo bm3)\<rparr>)"

text \<open>
  The refcount \<open>current_measure_enabled\<close> is an \<open>int\<close>; \<open>!x\<close> tests it for 0. The
  \<open>WARN_ON\<close>s only log.
\<close>

definition n810bm_enable_current_measure :: "n810bm \<Rightarrow> n810bm" where
  "n810bm_enable_current_measure bm =
     (let bm1 = (if current_measure_enabled bm = 0
                 then tahvo_set bm {TAHVO_REG_CHGCTL_CURMEAS}
                 else bm)
      in bm1\<lparr>current_measure_enabled := current_measure_enabled bm1 + 1\<rparr>)"

definition n810bm_disable_current_measure :: "n810bm \<Rightarrow> n810bm" where
  "n810bm_disable_current_measure bm =
     (let bm1 = bm\<lparr>current_measure_enabled := current_measure_enabled bm - 1\<rparr>
      in if current_measure_enabled bm1 = 0
         then tahvo_clear bm1 {TAHVO_REG_CHGCTL_CURMEAS}
         else bm1)"

subsection \<open>Charge state machine\<close>

definition n810bm_start_charge :: "n810bm \<Rightarrow> n810bm" where
  "n810bm_start_charge bm =
     (let bm1 = bm\<lparr>active_current_pwm := 0\<rparr>;
          bm2 = tahvo_write bm1 TAHVO_REG_CHGCURR (ucast (active_current_pwm bm1));
          bm3 = tahvo_maskset bm2
                  {TAHVO_REG_CHGCTL_EN, TAHVO_REG_CHGCTL_PWMOVR, TAHVO_REG_CHGCTL_PWMOVRZERO}
                  {TAHVO_REG_CHGCTL_EN};
          bm4 = bm3\<lparr>charger := (charger bm3)\<lparr>lipo_capacity := capacity bm3\<rparr>\<rparr>;
          (err, c) = lipocharge_start (charger bm4);
          bm5 = bm4\<lparr>charger := c\<rparr>;
          bm6 = n810bm_enable_current_measure bm5;
          bm7 = n810bm_set_current_measure_timer bm6 250;
          bm8 = n810bm_notify_charger_state bm7
      in n810bm_notify_charger_pwm bm8)"

definition n810bm_stop_charge :: "n810bm \<Rightarrow> n810bm" where
  "n810bm_stop_charge bm =
     (let bm1 = (if lipocharge_is_charging (charger bm)
                 then n810bm_disable_current_measure (n810bm_set_current_measure_timer bm 0)
                 else bm);
          bm2 = bm1\<lparr>charger := lipocharge_stop (charger bm1)\<rparr>;
          bm3 = bm2\<lparr>active_current_pwm := 0\<rparr>;
          bm4 = tahvo_write bm3 TAHVO_REG_CHGCURR (ucast (active_current_pwm bm3));
          bm5 = tahvo_maskset bm4
                  {TAHVO_REG_CHGCTL_EN, TAHVO_REG_CHGCTL_PWMOVR, TAHVO_REG_CHGCTL_PWMOVRZERO}
                  {};
          bm6 = n810bm_notify_charger_state bm5
      in n810bm_notify_charger_pwm bm6)"

subsection \<open>Periodic check\<close>

text \<open>
  The status register of the Retu chip is read once per check; of its bits only
  \<open>RETU_REG_STATUS_BATAVAIL\<close> and \<open>RETU_REG_STATUS_CHGPLUG\<close> are tested, so the value
  read is modelled as the set of these that are set.
\<close>

datatype retu_status_bit = RETU_REG_STATUS_BATAVAIL | RETU_REG_STATUS_CHGPLUG

text \<open>
  \<open>n810bm_periodic_check_work\<close>, in three parts. First the presence bits are read and
  the battery and charger state changes are handled; \<open>bsi\<close> gives the BSI samples.
\<close>

definition periodic_check_presence :: "n810bm \<Rightarrow> retu_status_bit set \<Rightarrow> (nat \<Rightarrow> s32) \<Rightarrow> n810bm" where
  "periodic_check_presence bm status bsi =
     (let battery_was_present = battery_present bm;
          charger_was_present = charger_present bm;
          bm1 = bm\<lparr>battery_present := (RETU_REG_STATUS_BATAVAIL \<in> status),
                   charger_present := (RETU_REG_STATUS_CHGPLUG \<in> status)\<rparr>;
          bm2 = (if battery_present bm1 \<noteq> battery_was_present
                 then (if battery_present bm1
                       then bm1\<lparr>capacity := n810bm_read_batt_capacity bsi\<rparr>
                       else bm1\<lparr>capacity := N810BM_CAP_NONE\<rparr>)
                 else bm1)
      in if charger_present bm2 \<noteq> charger_was_present
         then n810bm_notify_charger_present bm2
         else bm2)"

text \<open>
  Then, when the battery is being drained, its voltage is measured; \<open>battvolt\<close> gives the
  samples. \<open>n810bm_emergency\<close> does not return, so the second test is reached only when
  the first did not fire.
\<close>

definition N810BM_MIN_VOLTAGE_THRES :: s32 where "N810BM_MIN_VOLTAGE_THRES = 3200"

definition periodic_check_drain :: "n810bm \<Rightarrow> (nat \<Rightarrow> s32) \<Rightarrow> unit outcome" where
  "periodic_check_drain bm battvolt =
     (if (battery_present bm \<and> \<not> charger_present bm) \<or> \<not> n810bm_known_battery_present bm
      then (let mv = n810bm_measure_batt_voltage battvolt
            in if mv <s 0 then Emergency ''check: Failed to measure voltage''
               else if mv <s N810BM_MIN_VOLTAGE_THRES
                    then Emergency ''check: Minimum voltage threshold reached''
                    else Done ())
      else Done ())"

text \<open>Last, charging is started or stopped and the work is scheduled again.\<close>

definition periodic_check_charge :: "n810bm \<Rightarrow> n810bm" where
  "periodic_check_charge bm =
     (let bm1 = (if charger_present bm \<and> n810bm_known_battery_present bm \<and>
                    charger_enabled bm \<and> \<not> lipocharge_is_charging (charger bm)
                 then n810bm_start_charge bm
                 else bm);
          bm2 = (if lipocharge_is_charging (charger bm1) \<and> \<not> charger_present bm1
                 then n810bm_stop_charge bm1
                 else bm1)
      in bm2\<lparr>periodic_check_work := True\<rparr>)"

definition n810bm_periodic_check_work ::
    "n810bm \<Rightarrow> retu_status_bit set \<Rightarrow> (nat \<Rightarrow> s32) \<Rightarrow> (nat \<Rightarrow> s32) \<Rightarrow> n810bm outcome" where
  "n810bm_periodic_check_work bm status bsi battvolt =
     (let bm1 = periodic_check_presence bm status bsi
      in case periodic_check_drain bm1 battvolt of
           Emergency message \<Rightarrow> Emergency message
         | Done u \<Rightarrow> Done (periodic_check_charge bm1))"

subsection \<open>The battery level attribute\<close>

text \<open>
  \<open>n810bm_attr_battery_level_show\<close> returns \<open>-ENODEV\<close>, or the length of the text
  \<open>"%u\\n"\<close> it printed into the buffer; \<open>SHOW_UINT p\<close> stands for the text of \<open>p\<close>.
\<close>

datatype show_result = SHOW_ERR s32 | SHOW_UINT u32

definition n810bm_attr_battery_level_show :: "n810bm \<Rightarrow> (nat \<Rightarrow> s32) \<Rightarrow> show_result" where
  "n810bm_attr_battery_level_show bm battvolt =
     (let millivolt = (if \<not> battery_present bm \<or> lipocharge_is_charging (charger bm)
                       then 0
                       else n810bm_measure_batt_voltage battvolt)
      in if 0 \<le>s millivolt then SHOW_UINT (n810bm_mvolt2percent millivolt)
         else SHOW_ERR (- ENODEV))"

subsection \<open>Hardware and device initialisation, calibration loading\<close>

text \<open>
  \<open>adc_sanity_check\<close> on the value that \<open>retu_read_adc\<close> returned for the channel.
\<close>

definition adc_sanity_check :: "s32 \<Rightarrow> s32 outcome" where
  "adc_sanity_check val =
     (if val <s 0 then Done (- EIO)
      else if 5 <s val then Emergency ''GND ADC sanity check failed''
      else Done 0)"

text \<open>
  \<open>n810bm_check_adc_sanity\<close>: \<open>gnd\<close> gives the results of the reads of the ground
  channel; the first conversion is discarded.
\<close>

definition n810bm_check_adc_sanity :: "n810bm \<Rightarrow> (nat \<Rightarrow> s32) \<Rightarrow> (s32 \<times> n810bm) outcome" where
  "n810bm_check_adc_sanity bm gnd =
     (let bm1 = bm\<lparr>retu_adcscr := 0\<rparr>
      in case adc_sanity_check (gnd 1) of
           Emergency message \<Rightarrow> Emergency message
         | Done err \<Rightarrow> Done (err, bm1))"

definition n810bm_hw_exit :: "n810bm \<Rightarrow> n810bm" where
  "n810bm_hw_exit bm = (n810bm_stop_charge bm)\<lparr>retu_adcscr := 0\<rparr>"

definition n810bm_hw_init :: "n810bm \<Rightarrow> (nat \<Rightarrow> s32) \<Rightarrow> (s32 \<times> n810bm) outcome" where
  "n810bm_hw_init bm gnd =
     (case n810bm_check_adc_sanity bm gnd of
        Emergency message \<Rightarrow> Emergency message
      | Done (err, bm1) \<Rightarrow>
          if err \<noteq> 0 then Done (err, bm1) else Done (0, n810bm_stop_charge bm1))"

definition n810bm_cancel_and_flush_work :: "n810bm \<Rightarrow> n810bm" where
  "n810bm_cancel_and_flush_work bm =
     bm\<lparr>periodic_check_work := False, notify_work := False, currmeas_irq_work := False\<rparr>"

text \<open>
  The kernel services that \<open>n810bm_device_init\<close> calls are inputs: the results of the
  reads of the ground channel, of \<open>device_create_file\<close> for each index of
  \<open>n810bm_attrs\<close> (12 attributes), and of \<open>tahvo_request_irq\<close>; \<open>lipo_init\<close> is the effect
  of \<open>lipocharge_init\<close> on the charge algorithm's object.
\<close>

record init_env =
  gnd_adc :: "nat \<Rightarrow> s32"
  create_file :: "nat \<Rightarrow> s32"
  request_irq :: s32
  lipo_init :: "lipocharge \<Rightarrow> lipocharge"

text \<open>
  \<open>n810bm_device_init\<close>. The attribute files are created in order up to the first
  failure; the unwinding at \<open>err_unwind_attrs\<close> removes the files created so far, and a
  failed \<open>tahvo_request_irq\<close> unwinds all of them.
\<close>

definition n810bm_device_init :: "n810bm \<Rightarrow> init_env \<Rightarrow> (s32 \<times> n810bm) outcome" where
  "n810bm_device_init bm env =
     (let bm0 = bm\<lparr>charger := lipo_init env
                   ((charger bm)\<lparr>lipo_rate := LIPORATE_p6C, lipo_top_voltage := 4100,
                                  lipo_duty_cycle_max := 0xFF\<rparr>)\<rparr>
      in case n810bm_hw_init bm0 (gnd_adc env) of
           Emergency message \<Rightarrow> Emergency message
         | Done (err, bm1) \<Rightarrow>
             if err \<noteq> 0 then Done (err, n810bm_cancel_and_flush_work bm1)
             else (case find (\<lambda>i. create_file env i \<noteq> 0) [0..<12] of
                     Some i \<Rightarrow>
                       Done (create_file env i,
                             n810bm_cancel_and_flush_work
                               (n810bm_hw_exit (bm1\<lparr>attr_files := 0\<rparr>)))
                   | None \<Rightarrow>
                       (let bm2 = bm1\<lparr>attr_files := 12\<rparr>
                        in if request_irq env \<noteq> 0
                           then Done (request_irq env,
                                      n810bm_cancel_and_flush_work
                                        (n810bm_hw_exit (bm2\<lparr>attr_files := 0\<rparr>)))
                           else Done (0, bm2\<lparr>irq_requested := True,
                                              tahvo := tahvo_disable_irq (tahvo bm2),
                                              periodic_check_work := True,
                                              initialized := True\<rparr>))))"

text \<open>
  \<open>n810bm_pmm_block_found\<close> returns nothing; the result names the exit taken, which the
  source tells apart by its log messages. \<open>fw\<close> is \<open>None\<close> for a \<open>NULL\<close> firmware;
  \<open>memcmp\<close> compares the first 15 bytes and is reached only for a blob of the right size.
\<close>

datatype found_result =
    PMM_NOT_FOUND
  | PMM_INVALID_FORMAT
  | PMM_PARSE_FAILED s32
  | PMM_INIT_FAILED s32
  | PMM_INITIALIZED

definition pmm_magic :: "u8 list" where
  "pmm_magic = map of_char ''BME-PMM-BLOCK01''"

definition n810bm_pmm_block_found ::
    "n810bm \<Rightarrow> firmware option \<Rightarrow> u8 \<Rightarrow> init_env \<Rightarrow> (found_result \<times> n810bm) outcome" where
  "n810bm_pmm_block_found bm fw_opt uninit env =
     (case fw_opt of
        None \<Rightarrow> Done (PMM_NOT_FOUND, bm)
      | Some fw \<Rightarrow>
          if length fw \<noteq> N810BM_PMM_BLOCK_SIZE \<or> take 15 fw \<noteq> pmm_magic
          then Done (PMM_INVALID_FORMAT, bm)
          else (case n810bm_parse_pmm_block bm fw uninit of
                  (err, bm1) \<Rightarrow>
                    if err \<noteq> 0 then Done (PMM_PARSE_FAILED err, bm1)
                    else (case n810bm_device_init bm1 env of
                            Emergency message \<Rightarrow> Emergency message
                          | Done (err2, bm2) \<Rightarrow>
                              if err2 \<noteq> 0 then Done (PMM_INIT_FAILED err2, bm2)
                              else Done (PMM_INITIALIZED, bm2))))"

subsection \<open>Auxiliary notions for the properties\<close>

text \<open>
  The controller as \<open>n810bm_probe\<close> allocates it (\<open>kzalloc\<close>: every member zero), with
  the Tahvo chip in a state where the charger control bits are clear.
\<close>

definition tahvo_reset :: tahvo_chip where
  "tahvo_reset = \<lparr>chgctl = {}, chgcurr = 0, batcurrtimer = 0, batcurr_irq = False, ops = []\<rparr>"

definition n810bm_zeroed :: n810bm where
  "n810bm_zeroed =
     \<lparr>battery_present = False, charger_present = False, capacity = N810BM_CAP_NONE,
      charger_enabled = False,
      charger = \<lparr>lipo_state = LIPO_IDLE, lipo_capacity = N810BM_CAP_NONE,
                 lipo_rate = LIPORATE_unset, lipo_top_voltage = 0,
                 lipo_duty_cycle_max = 0\<rparr>,
      active_current_pwm = 0, current_measure_enabled = 0,
      calib = replicate 25 (calib_default 0 0 0 0 0 0 0),
      verbose_charge_log = False, notify_flags = 0, notify_work = False,
      currmeas_irq_work = False, periodic_check_work = False, initialized = False,
      tahvo = tahvo_reset, retu_adcscr = 0, attr_files = 0, irq_requested = False\<rparr>"

text \<open>The current measurement circuitry is enabled iff the refcount is positive.\<close>

definition curmeas_invariant :: "n810bm \<Rightarrow> bool" where
  "curmeas_invariant bm =
     ((TAHVO_REG_CHGCTL_CURMEAS \<in> chgctl (tahvo bm)) = (0 <s current_measure_enabled bm))"

text \<open>A controller with a known battery and the charger plugged in, not charging.\<close>

definition n810bm_ready :: n810bm where
  "n810bm_ready =
     n810bm_zeroed\<lparr>battery_present := True, charger_present := True,
                     capacity := N810BM_CAP_1500MAH, charger_enabled := True\<rparr>"

text \<open>
  A group-1 record is acceptable to \<open>extract_group1_elem\<close> when it cannot be fetched
  (it is skipped) or when its id byte is \<open>0xFE\<close> or below 24, the ids that have a slot.
\<close>

definition record_has_slot :: "firmware \<Rightarrow> u32 \<Rightarrow> bool" where
  "record_has_slot fw pmm_adc_id =
     (case pmm_record_get fw 12 1 (unat (pmm_adc_id + 3)) 0 of
        Inl err \<Rightarrow> True
      | Inr bytes \<Rightarrow> bytes ! 0 = 0xFE \<or> unat (bytes ! 0) < 24)"

text \<open>
  A blob of the right size with the magic and group 1 active, whose record for the
  battery voltage channel (group 1, element 4) carries the id byte \<open>0x50\<close>.
\<close>

definition pmm_blob_bad_id :: firmware where
  "pmm_blob_bad_id = (pmm_magic @ replicate 1521 0)[16 := 2, 576 := 0x50]"

text \<open>Two refused blobs: one byte short with the magic, and of the right size without it.\<close>

definition pmm_blob_short :: firmware where
  "pmm_blob_short = pmm_magic @ replicate 1520 0"

definition pmm_blob_no_magic :: firmware where
  "pmm_blob_no_magic = replicate 0x600 0"

text \<open>
  The id and flags of every slot of a table, in order. A slot is populated when its flags
  are not \<open>0xFF\<close>. \<open>default_signature\<close> is the one of the table of defaults.
\<close>

definition calib_signature :: "n810bm_adc_calib list \<Rightarrow> (u32 \<times> u8) list" where
  "calib_signature t = map (\<lambda>c. (adc_id c, flags c)) t"

definition default_signature :: "(u32 \<times> u8) list" where
  "default_signature =
     [(0xFE, 0x05), (0, 0xFF), (0x01, 0x01), (0x02, 0x01), (0x03, 0x00),
      (0x04, 0x02), (0x05, 0x03), (0x06, 0x00), (0x07, 0x00), (0x08, 0x00),
      (0, 0xFF), (0, 0xFF), (0, 0xFF), (0, 0xFF), (0, 0xFF),
      (0x0E, 0x06), (0, 0xFF), (0, 0xFF), (0, 0xFF), (0, 0xFF),
      (0x13, 0x01), (0x14, 0x04), (0x15, 0x00), (0x16, 0x00), (0x17, 0x00)]"

text \<open>Copying one default on the array alone (the lookup does not read the controller).\<close>

definition store_default :: "n810bm_adc_calib \<Rightarrow> n810bm_adc_calib list \<Rightarrow> n810bm_adc_calib list" where
  "store_default d c =
     (case n810bm_get_adc_calib n810bm_zeroed (adc_id d) of None \<Rightarrow> c | Some idx \<Rightarrow> c[idx := d])"

text \<open>
  The blob has the right size, group 1 is active in the mask at byte 16, and the two
  format markers (first byte of group 1 / element 0 and of group 1 / element 1) are
  \<open>0x01\<close>.
\<close>

definition pmm_markers_ok :: "firmware \<Rightarrow> bool" where
  "pmm_markers_ok fw =
     (length fw = 0x600 \<and> fw ! 16 AND 2 \<noteq> 0 \<and> fw ! 0x200 = 0x01 \<and> fw ! 0x210 = 0x01)"

text \<open>
  The numeric bounds of the sanity checks, on the slots of the battery voltage (2), the
  BSI (5), the battery current (15) and \<open>0xFE\<close> (0).
\<close>

definition calib_in_range :: "n810bm_adc_calib list \<Rightarrow> bool" where
  "calib_in_range t =
     (2400 \<le> field1 (t ! 2) \<and> field1 (t ! 2) \<le> 2700 \<and>
      20000 \<le> field2 (t ! 2) \<and> field2 (t ! 2) \<le> 23000 \<and>
      1100 \<le> field1 (t ! 5) \<and> field1 (t ! 5) \<le> 1300 \<and>
      7000 \<le> field2 (t ! 15) \<and> field2 (t ! 15) \<le> 12000 \<and>
      - 14 \<le>s field1 (t ! 0) \<and> field1 (t ! 0) \<le>s 14 \<and>
      13000 \<le> field2 (t ! 0) \<and> field2 (t ! 0) \<le> 13350)"

text \<open>
  A blob with the magic, group 1 active and both markers set, all records empty; and the
  same blob with a record for the battery voltage channel (id 1, flags 1) whose fields
  are 0.
\<close>

definition pmm_blob_markers :: firmware where
  "pmm_blob_markers = (pmm_magic @ replicate 1521 0)[16 := 2, 0x200 := 1, 0x210 := 1]"

definition pmm_blob_out_of_range :: firmware where
  "pmm_blob_out_of_range = pmm_blob_markers[576 := 1, 577 := 1]"

text \<open>The ids of the populated slots of a table, and the ids of the three lists.\<close>

definition populated_ids :: "n810bm_adc_calib list \<Rightarrow> u32 list" where
  "populated_ids t = map adc_id (filter (\<lambda>c. flags c \<noteq> 0xFF) t)"

definition group1_ids :: "u32 list" where
  "group1_ids = pmm_adc_ids_1 @ pmm_adc_ids_2 @ pmm_adc_ids_3"

text \<open>The controller after a successful parse.\<close>

definition n810bm_calibrated :: n810bm where
  "n810bm_calibrated = snd (n810bm_parse_pmm_block n810bm_zeroed pmm_blob_markers 0)"

text \<open>
  The slot that \<open>extract_group1_elem\<close> looks up for the record of a listed id: none when
  the record cannot be fetched, else the slot of the record's id byte.
\<close>

definition record_slot :: "n810bm \<Rightarrow> firmware \<Rightarrow> u32 \<Rightarrow> nat option" where
  "record_slot bm fw pmm_adc_id =
     (case pmm_record_get fw 12 1 (unat (pmm_adc_id + 3)) 0 of
        Inl err \<Rightarrow> None
      | Inr bytes \<Rightarrow> n810bm_get_adc_calib bm (ucast (bytes ! 0)))"

text \<open>The controller as allocated, with the defaults set.\<close>

definition n810bm_defaulted :: n810bm where
  "n810bm_defaulted = n810bm_adc_calib_set_defaults n810bm_zeroed"

section \<open>Properties\<close>

lemmas pmm_adc_id_defs =
  N810BM_PMM_ADC_BATVOLT_def N810BM_PMM_ADC_CHGVOLT_def N810BM_PMM_ADC_GND2_def
  N810BM_PMM_ADC_BSI_def N810BM_PMM_ADC_BATTEMP_def N810BM_PMM_ADC_HEADSET_def
  N810BM_PMM_ADC_HOOKDET_def N810BM_PMM_ADC_LIGHTSENS_def N810BM_PMM_ADC_BATCURR_def
  N810BM_PMM_ADC_BKUPVOLT_def N810BM_PMM_ADC_LIGHTTEMP_def N810BM_PMM_ADC_RFGP_def
  N810BM_PMM_ADC_WBTX_def N810BM_PMM_ADC_RETUTEMP_def N810BM_PMM_ADC_0xFE_def

subsection \<open>Signed reading of 32-bit values, ADC averaging\<close>

lemma odd_div_2_31: "(n::nat) < 4294967296 \<Longrightarrow> odd (n div 2147483648) \<longleftrightarrow> 2147483648 \<le> n"
proof (cases "n < 2147483648")
  case True
  then show ?thesis by simp
next
  case False
  assume "n < 4294967296"
  with False have "n div 2147483648 = 1"
    by (intro div_nat_eqI) simp_all
  with False show ?thesis by simp
qed

lemma neg32_iff: "(w::u32) <s 0 \<longleftrightarrow> 2147483648 \<le> unat w"
proof -
  have "w <s 0 \<longleftrightarrow> bit w 31"
    using bit_last_iff [of w] by (simp add: word_sless_alt)
  also have "\<dots> \<longleftrightarrow> bit (unat w) 31"
    by (simp add: bit_unsigned_iff)
  also have "\<dots> \<longleftrightarrow> odd (unat w div 2147483648)"
    by (simp add: bit_iff_odd)
  also have "\<dots> \<longleftrightarrow> 2147483648 \<le> unat w"
  proof -
    have "unat w < 4294967296"
      using unsigned_less [of w] by simp
    then show ?thesis by (rule odd_div_2_31)
  qed
  finally show ?thesis .
qed

lemma adc5: "retu_adc_average rd 5 =
  (if rd 0 <s 0 then rd 0 else if rd 1 <s 0 then rd 1 else if rd 2 <s 0 then rd 2
   else if rd 3 <s 0 then rd 3 else if rd 4 <s 0 then rd 4
   else (rd 0 + rd 1 + rd 2 + rd 3 + rd 4) div 5)"
  by (simp add: retu_adc_average_def eval_nat_numeral Let_def)

lemma unat_sum5: "unat ((a::u32) + b + c + d + e) = (unat a + unat b + unat c + unat d + unat e) mod 4294967296"
proof -
  have "unat (a + b + c + d + e) = unat (word_of_nat (unat a + unat b + unat c + unat d + unat e) :: u32)"
    by simp
  also have "\<dots> = (unat a + unat b + unat c + unat d + unat e) mod 4294967296"
    by (simp only: unat_of_nat) simp
  finally show ?thesis .
qed

lemma avg_nonneg: "\<not> ((v::u32) div 5 <s 0)"
proof -
  have "unat (v div 5) = unat v div unat (5 :: u32)" by (rule unat_div)
  moreover have "unat v < 4294967296" using unsigned_less[of v] by simp
  ultimately have "unat (v div 5) < 2147483648" by simp
  then show ?thesis
    by (simp add: neg32_iff)
qed

lemma ex_less5: "(\<exists>i<5. P (i::nat)) \<longleftrightarrow> P 0 \<or> P 1 \<or> P 2 \<or> P 3 \<or> P 4"
proof -
  have "{..<5::nat} = {0, 1, 2, 3, 4}" by auto
  then have "(\<exists>i\<in>{..<5}. P i) \<longleftrightarrow> P 0 \<or> P 1 \<or> P 2 \<or> P 3 \<or> P 4"
    by simp
  then show ?thesis by (simp add: Bex_def)
qed

lemma all_less5: "(\<forall>i<5. P (i::nat)) \<longleftrightarrow> P 0 \<and> P 1 \<and> P 2 \<and> P 3 \<and> P 4"
  using ex_less5 [of "\<lambda>i. \<not> P i"] by blast

lemma cap_general:
  "n810bm_read_batt_capacity rd =
     (if \<exists>i<5. rd i <s 0 then N810BM_CAP_UNKNOWN
      else if 0x3B5 - 20 \<le> adc_sum5 rd mod 2 ^ 32 div 5 \<and>
              adc_sum5 rd mod 2 ^ 32 div 5 \<le> 0x3B5 + 20
           then N810BM_CAP_1500MAH else N810BM_CAP_UNKNOWN)"
proof (cases "\<exists>i<5. rd i <s 0")
  case True
  then have "retu_adc_average rd 5 <s 0"
    by (auto simp: adc5 ex_less5)
  with True show ?thesis
    by (simp add: n810bm_read_batt_capacity_def)
next
  case False
  then have avg: "retu_adc_average rd 5 = (rd 0 + rd 1 + rd 2 + rd 3 + rd 4) div 5"
    by (simp add: adc5 ex_less5)
  have u: "unat (retu_adc_average rd 5) = adc_sum5 rd mod 2 ^ 32 div 5"
    unfolding avg adc_sum5_def
    by (simp only: unat_div unat_sum5) simp
  have "\<not> retu_adc_average rd 5 <s 0"
    unfolding avg by (rule avg_nonneg)
  with False show ?thesis
    by (simp add: n810bm_read_batt_capacity_def word_le_nat_alt u)
qed

text \<open>
  C7. The capacity reader averages five BSI samples. It returns the 1500 mAh class exactly
  when no read failed and the average (the wrapped unsigned sum divided by 5) lies in
  \<open>[0x3B5 - 20, 0x3B5 + 20]\<close>; otherwise, and after a failed read, it returns
  Unknown. For samples of at most 10 bits the sum does not wrap and the average is the
  arithmetic one.
\<close>

theorem read_batt_capacity_band:
  "n810bm_read_batt_capacity rd =
     (if \<exists>i<5. rd i <s 0 then N810BM_CAP_UNKNOWN
      else if 0x3B5 - 20 \<le> adc_sum5 rd mod 2 ^ 32 div 5 \<and>
              adc_sum5 rd mod 2 ^ 32 div 5 \<le> 0x3B5 + 20
           then N810BM_CAP_1500MAH else N810BM_CAP_UNKNOWN) \<and>
   ((\<forall>i<5. rd i \<le> 0x3FF) \<longrightarrow>
      (n810bm_read_batt_capacity rd = N810BM_CAP_1500MAH \<longleftrightarrow>
         0x3B5 - 20 \<le> adc_sum5 rd div 5 \<and> adc_sum5 rd div 5 \<le> 0x3B5 + 20))"
proof -
  have small: "n810bm_read_batt_capacity rd = N810BM_CAP_1500MAH \<longleftrightarrow>
         0x3B5 - 20 \<le> adc_sum5 rd div 5 \<and> adc_sum5 rd div 5 \<le> 0x3B5 + 20"
    if "\<forall>i<5. rd i \<le> 0x3FF"
  proof -
    from that have b: "unat (rd 0) \<le> 1023" "unat (rd 1) \<le> 1023" "unat (rd 2) \<le> 1023"
      "unat (rd 3) \<le> 1023" "unat (rd 4) \<le> 1023"
      by (simp_all add: all_less5 word_le_nat_alt)
    then have nowrap: "adc_sum5 rd mod 2 ^ 32 = adc_sum5 rd"
      by (simp add: adc_sum5_def)
    from b have "\<not> (\<exists>i<5. rd i <s 0)"
      by (simp add: ex_less5 neg32_iff)
    then show ?thesis
      by (simp only: cap_general [of rd] nowrap) simp
  qed
  with cap_general [of rd] show ?thesis by blast
qed

theorem read_batt_capacity_band_witness:
  "(0x3B5 - 20 :: s32) \<le> 0x3FF \<and>
   n810bm_read_batt_capacity (\<lambda>_. 0x3B5 - 20) = N810BM_CAP_1500MAH \<and>
   n810bm_read_batt_capacity (\<lambda>_. 0x3B5 + 20) = N810BM_CAP_1500MAH \<and>
   n810bm_read_batt_capacity (\<lambda>_. 0x3B5 - 21) = N810BM_CAP_UNKNOWN \<and>
   n810bm_read_batt_capacity (\<lambda>_. 0x3B5 + 21) = N810BM_CAP_UNKNOWN \<and>
   n810bm_read_batt_capacity (\<lambda>i. if i = 2 then - 5 else 0x3B5) = N810BM_CAP_UNKNOWN"
proof -
  let ?lo = "\<lambda>_ :: nat. 0x3B5 - 20 :: s32"
  have h: "\<forall>i<5. ?lo i \<le> 0x3FF"
    by simp
  have s: "adc_sum5 ?lo div 5 = 929"
    by (simp add: adc_sum5_def)
  have lo: "n810bm_read_batt_capacity ?lo = N810BM_CAP_1500MAH"
    using read_batt_capacity_band [of ?lo, THEN conjunct2, THEN mp, OF h]
    by (simp only: s) simp
  have hi: "n810bm_read_batt_capacity (\<lambda>_. 0x3B5 + 20) = N810BM_CAP_1500MAH"
    by (simp add: cap_general adc_sum5_def neg32_iff)
  have below: "n810bm_read_batt_capacity (\<lambda>_. 0x3B5 - 21) = N810BM_CAP_UNKNOWN"
    by (simp add: cap_general adc_sum5_def neg32_iff)
  have above: "n810bm_read_batt_capacity (\<lambda>_. 0x3B5 + 21) = N810BM_CAP_UNKNOWN"
    by (simp add: cap_general adc_sum5_def neg32_iff)
  have "(- 5 :: s32) <s 0"
    by (simp add: word_sless_alt)
  then have failed: "n810bm_read_batt_capacity (\<lambda>i. if i = 2 then - 5 else 0x3B5) = N810BM_CAP_UNKNOWN"
    by (simp add: cap_general ex_less5)
  have "(0x3B5 - 20 :: s32) \<le> 0x3FF"
    by simp
  with lo hi below above failed show ?thesis
    by blast
qed

subsection \<open>Voltage to percentage\<close>

lemma unat_mult_100:
  assumes "unat (d :: u32) \<le> 450"
  shows "unat (d * 100) = unat d * 100"
proof -
  have "unat d * unat (100 :: u32) < 2 ^ LENGTH(32)"
    using assms by simp
  then have "unat (d * 100) = unat d * unat (100 :: u32)"
    by (simp only: unat_mult_lem)
  then show ?thesis by simp
qed

lemma clamp_diff_mono:
  "(x :: nat) \<le> y \<Longrightarrow>
   min (max x 3700) 4150 - 3700 \<le> min (max y 3700) 4150 - 3700"
  by arith

lemma unat_clamp_u32:
  "unat (clamp_u32 v 3700 4150) = min (max (unat v) 3700) 4150"
  by (auto simp: clamp_u32_def Let_def word_less_nat_alt not_less min_def max_def)

lemma mvolt2percent_unat:
  "unat (n810bm_mvolt2percent mv) = (min (max (unat mv) 3700) 4150 - 3700) * 100 div 450"
proof -
  define c where "c = clamp_u32 mv 3700 4150"
  have cu: "unat c = min (max (unat mv) 3700) 4150"
    by (simp add: c_def unat_clamp_u32)
  then have lo: "3700 \<le> unat c" and hi: "unat c \<le> 4150"
    by simp_all
  have le: "(3700 :: u32) \<le> c"
    using lo by (simp add: word_le_nat_alt)
  have sub: "unat (c - 3700) = unat c - 3700"
    using le by (simp add: unat_sub)
  have "unat (c - 3700) \<le> 450"
    using hi sub by simp
  then have mul: "unat ((c - 3700) * 100) = (unat c - 3700) * 100"
    using sub by (simp only: unat_mult_100)
  have "unat ((c - 3700) * 100 div 450) = unat ((c - 3700) * 100) div unat (450 :: u32)"
    by (rule unat_div)
  then have "unat ((c - 3700) * 100 div 450) = (unat c - 3700) * 100 div 450"
    by (simp only: mul) simp
  then show ?thesis
    by (simp add: n810bm_mvolt2percent_def Let_def c_def [symmetric] cu)
qed

text \<open>
  C8. \<open>n810bm_mvolt2percent\<close> clamps its input to [3700, 4150] and scales linearly: the
  result is at most 100, it is 0 at 3700 and below, 100 at 4150 and above, and the
  function is monotonic non-decreasing over all \<open>unsigned int\<close> inputs.
\<close>

theorem mvolt2percent_clamp_monotonic:
  "unat (n810bm_mvolt2percent mv) = (min (max (unat mv) 3700) 4150 - 3700) * 100 div 450 \<and>
   n810bm_mvolt2percent mv \<le> 100 \<and>
   n810bm_mvolt2percent 3700 = 0 \<and>
   n810bm_mvolt2percent 4150 = 100 \<and>
   (mv < 3700 \<longrightarrow> n810bm_mvolt2percent mv = 0) \<and>
   (mv > 4150 \<longrightarrow> n810bm_mvolt2percent mv = 100) \<and>
   (a \<le> b \<longrightarrow> n810bm_mvolt2percent a \<le> n810bm_mvolt2percent b)"
proof -
  have bound: "n810bm_mvolt2percent mv \<le> 100"
    by (simp add: word_le_nat_alt mvolt2percent_unat)
  have at_lo: "n810bm_mvolt2percent 3700 = 0"
    by (rule word_unat_eq_iff [THEN iffD2]) (simp add: mvolt2percent_unat)
  have at_hi: "n810bm_mvolt2percent 4150 = 100"
    by (rule word_unat_eq_iff [THEN iffD2]) (simp add: mvolt2percent_unat)
  have below: "n810bm_mvolt2percent mv = 0" if "mv < 3700"
  proof -
    from that have "unat mv < 3700" by (simp add: word_less_nat_alt)
    then show ?thesis
      by (intro word_unat_eq_iff [THEN iffD2]) (simp add: mvolt2percent_unat)
  qed
  have above: "n810bm_mvolt2percent mv = 100" if "mv > 4150"
  proof -
    from that have "unat mv > 4150" by (simp add: word_less_nat_alt)
    then show ?thesis
      by (intro word_unat_eq_iff [THEN iffD2]) (simp add: mvolt2percent_unat)
  qed
  have mono: "n810bm_mvolt2percent a \<le> n810bm_mvolt2percent b" if "a \<le> b"
  proof -
    from that have "unat a \<le> unat b" by (simp add: word_le_nat_alt)
    then have "min (max (unat a) 3700) 4150 - 3700 \<le> min (max (unat b) 3700) 4150 - 3700"
      by (rule clamp_diff_mono)
    then have "(min (max (unat a) 3700) 4150 - 3700) * 100 div 450
               \<le> (min (max (unat b) 3700) 4150 - 3700) * 100 div 450"
      by (intro div_le_mono mult_le_mono1)
    then show ?thesis
      by (simp add: word_le_nat_alt mvolt2percent_unat)
  qed
  from bound at_lo at_hi below above mono mvolt2percent_unat [of mv]
  show ?thesis by blast
qed

theorem mvolt2percent_clamp_monotonic_witness:
  "(3000 :: u32) < 3700 \<and> n810bm_mvolt2percent 3000 = 0 \<and>
   (3925 :: u32) \<le> 5000 \<and> (5000 :: u32) > 4150 \<and>
   n810bm_mvolt2percent 3925 \<le> n810bm_mvolt2percent 5000 \<and>
   n810bm_mvolt2percent 5000 = 100"
  using mvolt2percent_clamp_monotonic [of 3000 3925 5000]
        mvolt2percent_clamp_monotonic [of 5000 3925 5000]
  by simp

subsection \<open>Current measurement refcount\<close>

lemma sint_range32: "- 2147483648 \<le> sint (r::s32) \<and> sint r < 2147483648"
  using sint_ge [of r] sint_lt [of r] by simp

lemma sint_add1: "sint (r::s32) < 2147483647 \<Longrightarrow> sint (r + 1) = sint r + 1"
proof -
  assume a: "sint r < 2147483647"
  have "sint (r + 1) = signed_take_bit 31 (sint r + sint (1::s32))"
    using sint_word_add [of r 1] by simp
  also have "\<dots> = signed_take_bit 31 (sint r + 1)" by simp
  also have "\<dots> = sint r + 1"
    using a sint_range32 [of r] by (intro signed_take_bit_int_eq_self) simp_all
  finally show ?thesis .
qed

lemma sint_sub1: "- 2147483648 < sint (r::s32) \<Longrightarrow> sint (r - 1) = sint r - 1"
proof -
  assume a: "- 2147483648 < sint r"
  have "sint (r - 1) = signed_take_bit 31 (sint r - sint (1::s32))"
    using sint_word_diff [of r 1] by simp
  also have "\<dots> = signed_take_bit 31 (sint r - 1)" by simp
  also have "\<dots> = sint r - 1"
    using a sint_range32 [of r] by (intro signed_take_bit_int_eq_self) simp_all
  finally show ?thesis .
qed

lemma pos32: "(0 <s (r::s32)) \<longleftrightarrow> 0 < sint r"
  by (simp add: word_sless_alt)

lemma enable_ops:
  "ops (tahvo (n810bm_enable_current_measure bm)) =
     ops (tahvo bm) @ (if current_measure_enabled bm = 0
                       then [OP_SET_CLEAR {TAHVO_REG_CHGCTL_CURMEAS} {TAHVO_REG_CHGCTL_CURMEAS}]
                       else [])"
  by (simp add: n810bm_enable_current_measure_def tahvo_set_def tahvo_set_clear_reg_bits_def Let_def)

lemma enable_count:
  "current_measure_enabled (n810bm_enable_current_measure bm) = current_measure_enabled bm + 1"
  by (simp add: n810bm_enable_current_measure_def tahvo_set_def Let_def)

lemma enable_chgctl:
  "chgctl (tahvo (n810bm_enable_current_measure bm)) =
     (if current_measure_enabled bm = 0
      then insert TAHVO_REG_CHGCTL_CURMEAS (chgctl (tahvo bm)) else chgctl (tahvo bm))"
  by (auto simp add: n810bm_enable_current_measure_def tahvo_set_def tahvo_set_clear_reg_bits_def Let_def)

lemma disable_ops:
  "ops (tahvo (n810bm_disable_current_measure bm)) =
     ops (tahvo bm) @ (if current_measure_enabled bm = 1
                       then [OP_SET_CLEAR {} {TAHVO_REG_CHGCTL_CURMEAS}]
                       else [])"
  by (simp add: n810bm_disable_current_measure_def tahvo_clear_def tahvo_set_clear_reg_bits_def Let_def)

lemma disable_count:
  "current_measure_enabled (n810bm_disable_current_measure bm) = current_measure_enabled bm - 1"
  by (simp add: n810bm_disable_current_measure_def tahvo_clear_def Let_def)

lemma disable_chgctl:
  "chgctl (tahvo (n810bm_disable_current_measure bm)) =
     (if current_measure_enabled bm = 1
      then chgctl (tahvo bm) - {TAHVO_REG_CHGCTL_CURMEAS} else chgctl (tahvo bm))"
  by (auto simp add: n810bm_disable_current_measure_def tahvo_clear_def tahvo_set_clear_reg_bits_def Let_def)

lemma sint_eq_iff32: "sint (a::s32) = sint b \<longleftrightarrow> a = b"
  by (auto intro: signed_word_eqI)

lemma enable_inv:
  assumes "curmeas_invariant bm" "sint (current_measure_enabled bm) < 2147483647"
  shows "curmeas_invariant (n810bm_enable_current_measure bm)"
proof -
  let ?r = "current_measure_enabled bm"
  have s: "sint (?r + 1) = sint ?r + 1"
    using assms(2) by (rule sint_add1)
  show ?thesis
  proof (cases "?r = 0")
    case True
    then show ?thesis
      by (simp add: curmeas_invariant_def enable_chgctl enable_count pos32)
  next
    case False
    then have "sint ?r \<noteq> sint (0::s32)"
      by (simp only: sint_eq_iff32) simp
    then have nz: "sint ?r \<noteq> 0" by simp
    have "(0 < sint (?r + 1)) = (0 < sint ?r)"
      using nz by (simp only: s) arith
    with assms(1) False show ?thesis
      by (simp add: curmeas_invariant_def enable_chgctl enable_count pos32)
  qed
qed

lemma disable_inv:
  assumes "curmeas_invariant bm" "- 2147483648 < sint (current_measure_enabled bm)"
  shows "curmeas_invariant (n810bm_disable_current_measure bm)"
proof -
  let ?r = "current_measure_enabled bm"
  have s: "sint (?r - 1) = sint ?r - 1"
    using assms(2) by (rule sint_sub1)
  show ?thesis
  proof (cases "?r = 1")
    case True
    then show ?thesis
      by (simp add: curmeas_invariant_def disable_chgctl disable_count pos32)
  next
    case False
    then have "sint ?r \<noteq> sint (1::s32)"
      by (simp only: sint_eq_iff32) simp
    then have nz: "sint ?r \<noteq> 1" by simp
    have "(0 < sint (?r - 1)) = (0 < sint ?r)"
      using nz by (simp only: s) arith
    with assms(1) False show ?thesis
      by (simp add: curmeas_invariant_def disable_chgctl disable_count pos32)
  qed
qed

text \<open>
  C4. Current measurement is reference counted. Enabling issues the set of
  \<open>TAHVO_REG_CHGCTL_CURMEAS\<close> exactly when the count goes from 0 to 1, disabling issues
  the clear exactly when it goes from 1 to 0, and no other register access is made. Both
  preserve the invariant that the bit is set iff the count is positive (short of an
  overflow of the \<open>int\<close>). Enabling twice and disabling twice from count 0 leaves the bit
  set after the first enable and clears it only at the second disable.
\<close>

theorem current_measure_refcounted:
  "ops (tahvo (n810bm_enable_current_measure bm)) =
     ops (tahvo bm) @ (if current_measure_enabled bm = 0
                       then [OP_SET_CLEAR {TAHVO_REG_CHGCTL_CURMEAS} {TAHVO_REG_CHGCTL_CURMEAS}]
                       else []) \<and>
   current_measure_enabled (n810bm_enable_current_measure bm) = current_measure_enabled bm + 1 \<and>
   ops (tahvo (n810bm_disable_current_measure bm)) =
     ops (tahvo bm) @ (if current_measure_enabled bm = 1
                       then [OP_SET_CLEAR {} {TAHVO_REG_CHGCTL_CURMEAS}]
                       else []) \<and>
   current_measure_enabled (n810bm_disable_current_measure bm) = current_measure_enabled bm - 1 \<and>
   (curmeas_invariant bm \<and> sint (current_measure_enabled bm) < 2147483647 \<longrightarrow>
      curmeas_invariant (n810bm_enable_current_measure bm)) \<and>
   (curmeas_invariant bm \<and> - 2147483648 < sint (current_measure_enabled bm) \<longrightarrow>
      curmeas_invariant (n810bm_disable_current_measure bm)) \<and>
   (current_measure_enabled bm = 0 \<longrightarrow>
      (let b1 = n810bm_enable_current_measure bm;
           b2 = n810bm_enable_current_measure b1;
           b3 = n810bm_disable_current_measure b2;
           b4 = n810bm_disable_current_measure b3
       in TAHVO_REG_CHGCTL_CURMEAS \<in> chgctl (tahvo b1) \<and>
          TAHVO_REG_CHGCTL_CURMEAS \<in> chgctl (tahvo b2) \<and>
          TAHVO_REG_CHGCTL_CURMEAS \<in> chgctl (tahvo b3) \<and>
          TAHVO_REG_CHGCTL_CURMEAS \<notin> chgctl (tahvo b4) \<and>
          current_measure_enabled b4 = 0 \<and>
          ops (tahvo b4) = ops (tahvo bm) @
            [OP_SET_CLEAR {TAHVO_REG_CHGCTL_CURMEAS} {TAHVO_REG_CHGCTL_CURMEAS},
             OP_SET_CLEAR {} {TAHVO_REG_CHGCTL_CURMEAS}]))"
proof -
  have scenario: "(let b1 = n810bm_enable_current_measure bm;
           b2 = n810bm_enable_current_measure b1;
           b3 = n810bm_disable_current_measure b2;
           b4 = n810bm_disable_current_measure b3
       in TAHVO_REG_CHGCTL_CURMEAS \<in> chgctl (tahvo b1) \<and>
          TAHVO_REG_CHGCTL_CURMEAS \<in> chgctl (tahvo b2) \<and>
          TAHVO_REG_CHGCTL_CURMEAS \<in> chgctl (tahvo b3) \<and>
          TAHVO_REG_CHGCTL_CURMEAS \<notin> chgctl (tahvo b4) \<and>
          current_measure_enabled b4 = 0 \<and>
          ops (tahvo b4) = ops (tahvo bm) @
            [OP_SET_CLEAR {TAHVO_REG_CHGCTL_CURMEAS} {TAHVO_REG_CHGCTL_CURMEAS},
             OP_SET_CLEAR {} {TAHVO_REG_CHGCTL_CURMEAS}])"
    if "current_measure_enabled bm = 0"
    using that
    by (simp add: Let_def enable_chgctl enable_count enable_ops
                  disable_chgctl disable_count disable_ops)
  from scenario enable_ops [of bm] enable_count [of bm] disable_ops [of bm] disable_count [of bm]
       enable_inv [of bm] disable_inv [of bm]
  show ?thesis by blast
qed

theorem current_measure_refcounted_witness:
  "current_measure_enabled n810bm_zeroed = 0 \<and>
   curmeas_invariant n810bm_zeroed \<and>
   sint (current_measure_enabled n810bm_zeroed) < 2147483647 \<and>
   curmeas_invariant (n810bm_enable_current_measure n810bm_zeroed) \<and>
   - 2147483648 < sint (current_measure_enabled (n810bm_enable_current_measure n810bm_zeroed)) \<and>
   curmeas_invariant (n810bm_disable_current_measure (n810bm_enable_current_measure n810bm_zeroed)) \<and>
   chgctl (tahvo (n810bm_enable_current_measure n810bm_zeroed)) = {TAHVO_REG_CHGCTL_CURMEAS} \<and>
   chgctl (tahvo (n810bm_disable_current_measure (n810bm_disable_current_measure
     (n810bm_enable_current_measure (n810bm_enable_current_measure n810bm_zeroed))))) = {} \<and>
   ops (tahvo (n810bm_disable_current_measure (n810bm_disable_current_measure
     (n810bm_enable_current_measure (n810bm_enable_current_measure n810bm_zeroed))))) =
     [OP_SET_CLEAR {TAHVO_REG_CHGCTL_CURMEAS} {TAHVO_REG_CHGCTL_CURMEAS},
      OP_SET_CLEAR {} {TAHVO_REG_CHGCTL_CURMEAS}]"
proof -
  let ?b1 = "n810bm_enable_current_measure n810bm_zeroed"
  have z: "current_measure_enabled n810bm_zeroed = 0"
    by (simp add: n810bm_zeroed_def)
  have i0: "curmeas_invariant n810bm_zeroed"
    by (simp add: curmeas_invariant_def n810bm_zeroed_def tahvo_reset_def)
  have s0: "sint (current_measure_enabled n810bm_zeroed) < 2147483647"
    by (simp add: z)
  have i1: "curmeas_invariant ?b1"
    using current_measure_refcounted [of n810bm_zeroed] i0 s0 by blast
  have c1: "current_measure_enabled ?b1 = 1"
    using current_measure_refcounted [of n810bm_zeroed] z by simp
  have s1: "- 2147483648 < sint (current_measure_enabled ?b1)"
    by (simp add: c1)
  have i2: "curmeas_invariant (n810bm_disable_current_measure ?b1)"
    using current_measure_refcounted [of ?b1] i1 s1 by blast
  have g1: "chgctl (tahvo ?b1) = {TAHVO_REG_CHGCTL_CURMEAS}"
    by (simp add: enable_chgctl z n810bm_zeroed_def tahvo_reset_def)
  have sc: "chgctl (tahvo (n810bm_disable_current_measure (n810bm_disable_current_measure
     (n810bm_enable_current_measure ?b1)))) = {} \<and>
    ops (tahvo (n810bm_disable_current_measure (n810bm_disable_current_measure
     (n810bm_enable_current_measure ?b1)))) =
     [OP_SET_CLEAR {TAHVO_REG_CHGCTL_CURMEAS} {TAHVO_REG_CHGCTL_CURMEAS},
      OP_SET_CLEAR {} {TAHVO_REG_CHGCTL_CURMEAS}]"
    by (simp add: enable_chgctl enable_count enable_ops disable_chgctl disable_count
                  disable_ops z g1) (simp add: n810bm_zeroed_def tahvo_reset_def)
  from z i0 s0 i1 s1 i2 g1 sc show ?thesis by blast
qed

subsection \<open>Starting and stopping the charge\<close>

lemmas charge_defs =
  n810bm_set_current_measure_timer_def tahvo_write_def tahvo_set_def tahvo_clear_def
  tahvo_maskset_def n810bm_notify_charger_state_def n810bm_notify_charger_pwm_def
  n810bm_notify_def n810bm_enable_current_measure_def n810bm_disable_current_measure_def
  lipocharge_start_def lipocharge_stop_def lipocharge_is_charging_def

lemma start_charge_fields:
  "active_current_pwm (n810bm_start_charge bm) = 0"
  "current_measure_enabled (n810bm_start_charge bm) = current_measure_enabled bm + 1"
  "lipocharge_is_charging (charger (n810bm_start_charge bm))"
  by (simp_all add: n810bm_start_charge_def charge_defs Let_def)

lemma stop_charge_fields:
  "active_current_pwm (n810bm_stop_charge bm) = 0"
  "current_measure_enabled (n810bm_stop_charge bm) =
     (if lipocharge_is_charging (charger bm) then current_measure_enabled bm - 1
      else current_measure_enabled bm)"
  "\<not> lipocharge_is_charging (charger (n810bm_stop_charge bm))"
  by (simp_all add: n810bm_stop_charge_def charge_defs Let_def)

lemma set_bit_twice:
  "set_bit 2 (set_bit (Suc 0) (set_bit 2 (set_bit (Suc 0) (w :: u32)))) = set_bit 2 (set_bit (Suc 0) w)"
  by (rule bit_eqI) (auto simp add: bit_set_bit_iff)

lemma stop_idle_state:
  assumes "\<not> lipocharge_is_charging (charger bm)"
  shows "n810bm_stop_charge (n810bm_stop_charge bm) =
         (n810bm_stop_charge bm)\<lparr>tahvo := (tahvo (n810bm_stop_charge bm))
            \<lparr>ops := ops (tahvo (n810bm_stop_charge bm)) @
               [OP_WRITE TAHVO_REG_CHGCURR 0,
                OP_SET_CLEAR {} {TAHVO_REG_CHGCTL_EN, TAHVO_REG_CHGCTL_PWMOVR,
                                 TAHVO_REG_CHGCTL_PWMOVRZERO}]\<rparr>\<rparr>"
  using assms
  by (simp add: n810bm_stop_charge_def charge_defs Let_def tahvo_set_clear_reg_bits_def
                tahvo_write_reg_def set_bit_twice)

text \<open>
  C3. From an idle controller, \<open>n810bm_start_charge\<close> followed by
  \<open>n810bm_stop_charge\<close> leaves \<open>active_current_pwm\<close> at 0, the refcount
  \<open>current_measure_enabled\<close> at its value before the start, and the algorithm idle.
  \<open>n810bm_stop_charge\<close> on an idle controller keeps the PWM at 0 and the refcount
  unchanged, and a second stop changes nothing but the trace of register accesses. The
  conditions that \<open>n810bm_start_charge\<close> warns about (battery and charger present,
  capacity positive) are not needed for this.
\<close>

theorem start_stop_charge_round_trip:
  "(\<not> lipocharge_is_charging (charger bm) \<longrightarrow>
      active_current_pwm (n810bm_stop_charge (n810bm_start_charge bm)) = 0 \<and>
      current_measure_enabled (n810bm_stop_charge (n810bm_start_charge bm)) =
        current_measure_enabled bm \<and>
      \<not> lipocharge_is_charging (charger (n810bm_stop_charge (n810bm_start_charge bm)))) \<and>
   (\<not> lipocharge_is_charging (charger bm) \<longrightarrow>
      active_current_pwm (n810bm_stop_charge bm) = 0 \<and>
      current_measure_enabled (n810bm_stop_charge bm) = current_measure_enabled bm \<and>
      \<not> lipocharge_is_charging (charger (n810bm_stop_charge bm)) \<and>
      n810bm_stop_charge (n810bm_stop_charge bm) =
        (n810bm_stop_charge bm)\<lparr>tahvo := (tahvo (n810bm_stop_charge bm))
           \<lparr>ops := ops (tahvo (n810bm_stop_charge bm)) @
              [OP_WRITE TAHVO_REG_CHGCURR 0,
               OP_SET_CLEAR {} {TAHVO_REG_CHGCTL_EN, TAHVO_REG_CHGCTL_PWMOVR,
                                TAHVO_REG_CHGCTL_PWMOVRZERO}]\<rparr>\<rparr>)"
proof -
  have "current_measure_enabled (n810bm_stop_charge (n810bm_start_charge bm)) =
        current_measure_enabled bm"
    by (simp add: stop_charge_fields start_charge_fields)
  then show ?thesis
    by (simp add: stop_charge_fields stop_idle_state)
qed

theorem start_stop_charge_round_trip_witness:
  "\<not> lipocharge_is_charging (charger n810bm_ready) \<and>
   battery_present n810bm_ready \<and> charger_present n810bm_ready \<and>
   0 < capacity_int (capacity n810bm_ready) \<and>
   lipocharge_is_charging (charger (n810bm_start_charge n810bm_ready)) \<and>
   current_measure_enabled (n810bm_start_charge n810bm_ready) = 1 \<and>
   active_current_pwm (n810bm_stop_charge (n810bm_start_charge n810bm_ready)) = 0 \<and>
   current_measure_enabled (n810bm_stop_charge (n810bm_start_charge n810bm_ready)) = 0 \<and>
   current_measure_enabled (n810bm_stop_charge n810bm_ready) = 0"
proof -
  have idle: "\<not> lipocharge_is_charging (charger n810bm_ready)"
    by (simp add: n810bm_ready_def n810bm_zeroed_def lipocharge_is_charging_def)
  have z: "current_measure_enabled n810bm_ready = 0"
    by (simp add: n810bm_ready_def n810bm_zeroed_def)
  have pre: "battery_present n810bm_ready \<and> charger_present n810bm_ready \<and>
      0 < capacity_int (capacity n810bm_ready)"
    by (simp add: n810bm_ready_def n810bm_zeroed_def)
  have started: "lipocharge_is_charging (charger (n810bm_start_charge n810bm_ready)) \<and>
      current_measure_enabled (n810bm_start_charge n810bm_ready) = 1"
    by (simp add: start_charge_fields z)
  from start_stop_charge_round_trip [of n810bm_ready] idle z pre started
  show ?thesis by simp
qed

subsection \<open>The notification work\<close>

lemma do_notify_bit:
  "do_notify flgs a = (if bit flgs (notify_bit a) then [attr_name a] else [])"
  by (simp add: do_notify_def bit_iff_and_push_bit_not_eq_0)

lemma notify_work_flags: "notify_flags (snd (n810bm_notify_work bm)) = 0"
  by (simp add: n810bm_notify_work_def Let_def)

lemma notify_work_events:
  "fst (n810bm_notify_work bm) =
     do_notify (notify_flags bm) N810BM_NOTIFY_charger_present @
     do_notify (notify_flags bm) N810BM_NOTIFY_charger_state @
     do_notify (notify_flags bm) N810BM_NOTIFY_charger_pwm"
  by (simp add: n810bm_notify_work_def Let_def)

lemma notify_work_distinct: "distinct (fst (n810bm_notify_work bm))"
  by (simp add: notify_work_events do_notify_bit)

lemma notify_work_set:
  "set (fst (n810bm_notify_work bm)) = attr_name ` {a. bit (notify_flags bm) (notify_bit a)}"
proof -
  have "{a. bit (notify_flags bm) (notify_bit a)} =
        (if bit (notify_flags bm) 0 then {N810BM_NOTIFY_charger_present} else {}) \<union>
        (if bit (notify_flags bm) 1 then {N810BM_NOTIFY_charger_state} else {}) \<union>
        (if bit (notify_flags bm) 2 then {N810BM_NOTIFY_charger_pwm} else {})"
    (is "?L = ?R")
  proof (rule set_eqI)
    fix a show "a \<in> ?L \<longleftrightarrow> a \<in> ?R"
      by (cases a) simp_all
  qed
  then show ?thesis
    by (simp add: notify_work_events do_notify_bit)
qed

lemma notify_work_again: "fst (n810bm_notify_work (snd (n810bm_notify_work bm))) = []"
  by (simp add: notify_work_events notify_work_flags do_notify_bit)

lemma notify_two:
  assumes "notify_flags bm = 0" "a \<noteq> b"
  shows "length (fst (n810bm_notify_work (n810bm_notify b (n810bm_notify a bm)))) = 2 \<and>
         set (fst (n810bm_notify_work (n810bm_notify b (n810bm_notify a bm)))) =
           {attr_name a, attr_name b}"
  using assms
  by (cases a; cases b)
     (auto simp add: notify_work_events do_notify_bit n810bm_notify_def bit_set_bit_iff)

lemma attr_name_inj: "attr_name a = attr_name b \<longleftrightarrow> a = b"
  by (cases a; cases b) simp_all

text \<open>
  C6. One run of \<open>n810bm_notify_work\<close> exchanges \<open>notify_flags\<close> with 0 and calls
  \<open>sysfs_notify\<close> once for each of the three flags that was set: the calls are
  distinct, their names are those of the set flags, and a second run right after emits
  nothing. With no flag set nothing is emitted; after two distinct notifications were
  posted on cleared flags, one run emits exactly these two names and leaves no flag
  pending.
\<close>

theorem notify_work_drains_flags:
  "notify_flags (snd (n810bm_notify_work bm)) = 0 \<and>
   distinct (fst (n810bm_notify_work bm)) \<and>
   set (fst (n810bm_notify_work bm)) = attr_name ` {a. bit (notify_flags bm) (notify_bit a)} \<and>
   fst (n810bm_notify_work (snd (n810bm_notify_work bm))) = [] \<and>
   (notify_flags bm = 0 \<longrightarrow> fst (n810bm_notify_work bm) = []) \<and>
   (notify_flags bm = 0 \<and> a \<noteq> b \<longrightarrow>
      length (fst (n810bm_notify_work (n810bm_notify b (n810bm_notify a bm)))) = 2 \<and>
      set (fst (n810bm_notify_work (n810bm_notify b (n810bm_notify a bm)))) =
        {attr_name a, attr_name b} \<and>
      attr_name a \<noteq> attr_name b \<and>
      notify_flags (snd (n810bm_notify_work (n810bm_notify b (n810bm_notify a bm)))) = 0)"
proof -
  have none: "fst (n810bm_notify_work bm) = []" if "notify_flags bm = 0"
    using that by (simp add: notify_work_events do_notify_bit)
  from none notify_work_flags notify_work_distinct [of bm] notify_work_set [of bm]
       notify_work_again [of bm] notify_two [of bm a b] attr_name_inj [of a b]
  show ?thesis by blast
qed

theorem notify_work_drains_flags_witness:
  "notify_flags n810bm_zeroed = 0 \<and>
   N810BM_NOTIFY_charger_present \<noteq> N810BM_NOTIFY_charger_pwm \<and>
   fst (n810bm_notify_work n810bm_zeroed) = [] \<and>
   fst (n810bm_notify_work (n810bm_notify_charger_pwm (n810bm_notify_charger_present n810bm_zeroed)))
     = [''charger_present'', ''charger_pwm''] \<and>
   length (fst (n810bm_notify_work
     (n810bm_notify_charger_pwm (n810bm_notify_charger_present n810bm_zeroed)))) = 2 \<and>
   notify_flags (snd (n810bm_notify_work
     (n810bm_notify_charger_pwm (n810bm_notify_charger_present n810bm_zeroed)))) = 0"
proof -
  have z: "notify_flags n810bm_zeroed = 0"
    by (simp add: n810bm_zeroed_def)
  have ev: "fst (n810bm_notify_work
      (n810bm_notify_charger_pwm (n810bm_notify_charger_present n810bm_zeroed)))
     = [''charger_present'', ''charger_pwm'']"
    by (simp add: notify_work_events do_notify_bit n810bm_notify_charger_pwm_def
          n810bm_notify_charger_present_def n810bm_notify_def bit_set_bit_iff z)
  from notify_work_drains_flags
         [of n810bm_zeroed N810BM_NOTIFY_charger_present N810BM_NOTIFY_charger_pwm] z ev
  show ?thesis
    by (simp add: n810bm_notify_charger_pwm_def n810bm_notify_charger_present_def)
qed

subsection \<open>Battery voltage and the battery level attribute\<close>

lemma sle0_iff: "(0 \<le>s (x::s32)) \<longleftrightarrow> \<not> x <s 0"
  by (auto simp add: word_sle_eq word_sless_alt)

lemma adc5_failed:
  assumes "\<exists>i<5. rd i <s 0"
  shows "retu_adc_average rd 5 <s 0"
  using assms by (auto simp: adc5 ex_less5)

lemma adc5_ok:
  assumes "\<not> (\<exists>i<5. rd i <s 0)"
  shows "retu_adc_average rd 5 = (rd 0 + rd 1 + rd 2 + rd 3 + rd 4) div 5"
  using assms by (simp add: adc5 ex_less5)

lemma volt_formula_nonneg:
  "\<not> (2800 + (y :: u32) div 1000 <s 0)"
proof -
  have "unat (y div 1000) = unat y div unat (1000 :: u32)"
    by (rule unat_div)
  moreover have "unat y < 4294967296"
    using unsigned_less [of y] by simp
  ultimately have b: "unat (y div 1000) \<le> 4294967"
    by simp
  have "unat (2800 + y div 1000) = (unat (2800 :: u32) + unat (y div 1000)) mod 2 ^ LENGTH(32)"
    by (rule unat_word_ariths)
  then have "unat (2800 + y div 1000) = 2800 + unat (y div 1000)"
    using b by simp
  with b show ?thesis
    by (simp add: neg32_iff)
qed

lemma measure_batt_voltage_failed:
  "n810bm_measure_batt_voltage rd <s 0 \<longleftrightarrow> (\<exists>i<5. rd i <s 0)"
proof (cases "\<exists>i<5. rd i <s 0")
  case True
  then show ?thesis
    by (simp add: n810bm_measure_batt_voltage_def Let_def adc5_failed)
next
  case False
  have nn: "\<not> retu_adc_average rd 5 <s 0"
    unfolding adc5_ok [OF False] by (rule avg_nonneg)
  have c: "\<not> ((2800 :: s32) <s 0)"
    by (simp add: neg32_iff)
  from False nn c show ?thesis
    by (simp add: n810bm_measure_batt_voltage_def Let_def volt_formula_nonneg)
qed

lemma mvolt2percent_0: "n810bm_mvolt2percent 0 = 0"
  by (rule word_unat_eq_iff [THEN iffD2]) (simp add: mvolt2percent_unat)

lemma measure_201: "n810bm_measure_batt_voltage (\<lambda>_. 201) = 3199"
  by (simp add: n810bm_measure_batt_voltage_def adc5 Let_def word_sless_alt word_sle_eq)

lemma measure_202: "n810bm_measure_batt_voltage (\<lambda>_. 202) = 3202"
  by (simp add: n810bm_measure_batt_voltage_def adc5 Let_def word_sless_alt word_sle_eq)

lemma measure_457: "n810bm_measure_batt_voltage (\<lambda>_. 457) = 3901"
  by (simp add: n810bm_measure_batt_voltage_def adc5 Let_def word_sless_alt word_sle_eq)

lemma percent_3901: "n810bm_mvolt2percent 3901 = 44"
  by (rule word_unat_eq_iff [THEN iffD2]) (simp add: mvolt2percent_unat)

lemma battery_level_idle:
  "\<not> battery_present bm \<or> lipocharge_is_charging (charger bm) \<Longrightarrow>
   n810bm_attr_battery_level_show bm rd = SHOW_UINT 0"
  by (auto simp add: n810bm_attr_battery_level_show_def Let_def mvolt2percent_0)

lemma battery_level_measured:
  "battery_present bm \<Longrightarrow> \<not> lipocharge_is_charging (charger bm) \<Longrightarrow>
   n810bm_attr_battery_level_show bm rd =
     (if \<exists>i<5. rd i <s 0 then SHOW_ERR (- ENODEV)
      else SHOW_UINT (n810bm_mvolt2percent (n810bm_measure_batt_voltage rd)))"
  by (simp add: n810bm_attr_battery_level_show_def Let_def sle0_iff measure_batt_voltage_failed)

text \<open>
  C9 as stated fails: with the charge algorithm charging, \<open>battery_level\<close> reads as the
  percentage 0, not as an error.
\<close>

theorem battery_level_charging_counterexample:
  "lipocharge_is_charging (charger (n810bm_start_charge n810bm_ready)) \<and>
   n810bm_attr_battery_level_show (n810bm_start_charge n810bm_ready) (\<lambda>_. 457) = SHOW_UINT 0"
  by (simp add: start_charge_fields battery_level_idle)

text \<open>
  C9, amended. While the charge algorithm reports charging, and also when no battery is
  present, \<open>battery_level\<close> makes no measurement and reads 0. With a battery present
  and not charging it reads the percentage of the measured voltage, and is not
  available (\<open>-ENODEV\<close>) exactly when a read of the measurement failed.
\<close>

theorem battery_level_while_charging:
  "(\<not> battery_present bm \<or> lipocharge_is_charging (charger bm) \<longrightarrow>
      n810bm_attr_battery_level_show bm rd = SHOW_UINT 0) \<and>
   (battery_present bm \<and> \<not> lipocharge_is_charging (charger bm) \<longrightarrow>
      n810bm_attr_battery_level_show bm rd =
        (if \<exists>i<5. rd i <s 0 then SHOW_ERR (- ENODEV)
         else SHOW_UINT (n810bm_mvolt2percent (n810bm_measure_batt_voltage rd))))"
  using battery_level_idle [of bm rd] battery_level_measured [of bm rd] by blast

theorem battery_level_while_charging_witness:
  "lipocharge_is_charging (charger (n810bm_start_charge n810bm_ready)) \<and>
   n810bm_attr_battery_level_show (n810bm_start_charge n810bm_ready) (\<lambda>_. 457) = SHOW_UINT 0 \<and>
   battery_present n810bm_ready \<and> \<not> lipocharge_is_charging (charger n810bm_ready) \<and>
   n810bm_attr_battery_level_show n810bm_ready (\<lambda>_. 457) = SHOW_UINT 44 \<and>
   n810bm_attr_battery_level_show n810bm_ready (\<lambda>_. - 5) = SHOW_ERR (- ENODEV)"
proof -
  have c: "lipocharge_is_charging (charger (n810bm_start_charge n810bm_ready))"
    by (simp add: start_charge_fields)
  have p: "battery_present n810bm_ready \<and> \<not> lipocharge_is_charging (charger n810bm_ready)"
    by (simp add: n810bm_ready_def n810bm_zeroed_def lipocharge_is_charging_def)
  have ex5: "\<exists>i::nat. i < 5"
    by (rule exI [of _ 0]) simp
  have a: "n810bm_attr_battery_level_show (n810bm_start_charge n810bm_ready) (\<lambda>_. 457) = SHOW_UINT 0"
    using battery_level_while_charging [of "n810bm_start_charge n810bm_ready" "\<lambda>_. 457",
            THEN conjunct1] c
    by simp
  have b: "n810bm_attr_battery_level_show n810bm_ready (\<lambda>_. 457) = SHOW_UINT 44"
    using battery_level_while_charging [of n810bm_ready "\<lambda>_. 457", THEN conjunct2] p
    by (simp add: measure_457 percent_3901 word_sless_alt)
  have e: "n810bm_attr_battery_level_show n810bm_ready (\<lambda>_. - 5) = SHOW_ERR (- ENODEV)"
    using battery_level_while_charging [of n810bm_ready "\<lambda>_. - 5", THEN conjunct2] p ex5
    by (simp add: word_sless_alt)
  from c p a b e show ?thesis
    by blast
qed

subsection \<open>The periodic check and the voltage floor\<close>

lemma presence_fields:
  "battery_present (periodic_check_presence bm status bsi) = (RETU_REG_STATUS_BATAVAIL \<in> status)"
  "charger_present (periodic_check_presence bm status bsi) = (RETU_REG_STATUS_CHGPLUG \<in> status)"
  "capacity (periodic_check_presence bm status bsi) =
     (if (RETU_REG_STATUS_BATAVAIL \<in> status) \<noteq> battery_present bm
      then (if RETU_REG_STATUS_BATAVAIL \<in> status then n810bm_read_batt_capacity bsi
            else N810BM_CAP_NONE)
      else capacity bm)"
  by (simp_all add: periodic_check_presence_def Let_def n810bm_notify_charger_present_def
        n810bm_notify_def)

lemma check_outcome:
  assumes "(battery_present (periodic_check_presence bm status bsi) \<and>
            \<not> charger_present (periodic_check_presence bm status bsi)) \<or>
           \<not> n810bm_known_battery_present (periodic_check_presence bm status bsi)"
  shows "n810bm_periodic_check_work bm status bsi battvolt =
     (if \<exists>i<5. battvolt i <s 0 then Emergency ''check: Failed to measure voltage''
      else if n810bm_measure_batt_voltage battvolt <s 3200
           then Emergency ''check: Minimum voltage threshold reached''
           else Done (periodic_check_charge (periodic_check_presence bm status bsi)))"
  using assms
  by (auto simp add: n810bm_periodic_check_work_def periodic_check_drain_def Let_def
        measure_batt_voltage_failed [symmetric] N810BM_MIN_VOLTAGE_THRES_def)

lemma floor_cases:
  "n810bm_measure_batt_voltage battvolt = 3199 \<Longrightarrow>
     n810bm_measure_batt_voltage battvolt <s 3200"
  "3200 \<le>s n810bm_measure_batt_voltage battvolt \<Longrightarrow>
     \<not> n810bm_measure_batt_voltage battvolt <s 3200 \<and> \<not> (\<exists>i<5. battvolt i <s 0)"
proof -
  show "n810bm_measure_batt_voltage battvolt <s 3200"
    if "n810bm_measure_batt_voltage battvolt = 3199"
    using that by (simp add: word_sless_alt)
  show "\<not> n810bm_measure_batt_voltage battvolt <s 3200 \<and> \<not> (\<exists>i<5. battvolt i <s 0)"
    if h: "3200 \<le>s n810bm_measure_batt_voltage battvolt"
  proof -
    from h have "\<not> n810bm_measure_batt_voltage battvolt <s 3200"
      by (simp add: word_sless_alt word_sle_eq)
    moreover from h have "\<not> n810bm_measure_batt_voltage battvolt <s 0"
      by (simp add: word_sless_alt word_sle_eq)
    then have "\<not> (\<exists>i<5. battvolt i <s 0)"
      by (simp only: measure_batt_voltage_failed) simp
    ultimately show ?thesis by blast
  qed
qed

text \<open>
  C1. In a periodic check that finds the device discharging (battery present and charger
  absent, or no known battery present, after the presence bits were read), the battery
  voltage is measured and the check ends in \<open>n810bm_emergency\<close> exactly when a read of
  the measurement failed or the measured value is below 3200 as a signed \<open>int\<close>;
  otherwise the check goes on to the charge control. A measured 3199 triggers the
  emergency, a measured 3200 or more does not.
\<close>

theorem periodic_check_voltage_floor:
  "battery_present (periodic_check_presence bm status bsi) =
     (RETU_REG_STATUS_BATAVAIL \<in> status) \<and>
   charger_present (periodic_check_presence bm status bsi) =
     (RETU_REG_STATUS_CHGPLUG \<in> status) \<and>
   ((battery_present (periodic_check_presence bm status bsi) \<and>
     \<not> charger_present (periodic_check_presence bm status bsi)) \<or>
    \<not> n810bm_known_battery_present (periodic_check_presence bm status bsi) \<longrightarrow>
      n810bm_periodic_check_work bm status bsi battvolt =
        (if \<exists>i<5. battvolt i <s 0 then Emergency ''check: Failed to measure voltage''
         else if n810bm_measure_batt_voltage battvolt <s 3200
              then Emergency ''check: Minimum voltage threshold reached''
              else Done (periodic_check_charge (periodic_check_presence bm status bsi))) \<and>
      ((\<exists>m. n810bm_periodic_check_work bm status bsi battvolt = Emergency m) \<longleftrightarrow>
         (\<exists>i<5. battvolt i <s 0) \<or> n810bm_measure_batt_voltage battvolt <s 3200) \<and>
      (n810bm_measure_batt_voltage battvolt = 3199 \<longrightarrow>
         (\<exists>m. n810bm_periodic_check_work bm status bsi battvolt = Emergency m)) \<and>
      (3200 \<le>s n810bm_measure_batt_voltage battvolt \<longrightarrow>
         n810bm_periodic_check_work bm status bsi battvolt =
           Done (periodic_check_charge (periodic_check_presence bm status bsi))))"
proof -
  let ?bm1 = "periodic_check_presence bm status bsi"
  let ?w = "n810bm_periodic_check_work bm status bsi battvolt"
  let ?mv = "n810bm_measure_batt_voltage battvolt"
  have main: "?w = (if \<exists>i<5. battvolt i <s 0 then Emergency ''check: Failed to measure voltage''
         else if ?mv <s 3200
              then Emergency ''check: Minimum voltage threshold reached''
              else Done (periodic_check_charge ?bm1)) \<and>
      ((\<exists>m. ?w = Emergency m) \<longleftrightarrow> (\<exists>i<5. battvolt i <s 0) \<or> ?mv <s 3200) \<and>
      (?mv = 3199 \<longrightarrow> (\<exists>m. ?w = Emergency m)) \<and>
      (3200 \<le>s ?mv \<longrightarrow> ?w = Done (periodic_check_charge ?bm1))"
    if d: "(battery_present ?bm1 \<and> \<not> charger_present ?bm1) \<or>
           \<not> n810bm_known_battery_present ?bm1"
  proof -
    note o = check_outcome [OF d, of battvolt]
    have iff: "(\<exists>m. ?w = Emergency m) \<longleftrightarrow> (\<exists>i<5. battvolt i <s 0) \<or> ?mv <s 3200"
      by (simp only: o) simp
    have low: "\<exists>m. ?w = Emergency m" if "?mv = 3199"
      using floor_cases(1) [OF that] iff by blast
    have high: "?w = Done (periodic_check_charge ?bm1)" if "3200 \<le>s ?mv"
      using floor_cases(2) [OF that] by (simp only: o) simp
    from o iff low high show ?thesis by blast
  qed
  from main presence_fields(1) [of bm status bsi] presence_fields(2) [of bm status bsi]
  show ?thesis by blast
qed

theorem periodic_check_voltage_floor_witness:
  "\<not> n810bm_known_battery_present (periodic_check_presence n810bm_zeroed {} (\<lambda>_. 0)) \<and>
   n810bm_measure_batt_voltage (\<lambda>_. 201) = 3199 \<and>
   n810bm_periodic_check_work n810bm_zeroed {} (\<lambda>_. 0) (\<lambda>_. 201) =
     Emergency ''check: Minimum voltage threshold reached'' \<and>
   3200 \<le>s n810bm_measure_batt_voltage (\<lambda>_. 202) \<and>
   n810bm_periodic_check_work n810bm_zeroed {} (\<lambda>_. 0) (\<lambda>_. 202) =
     Done (periodic_check_charge (periodic_check_presence n810bm_zeroed {} (\<lambda>_. 0))) \<and>
   n810bm_periodic_check_work n810bm_zeroed {} (\<lambda>_. 0) (\<lambda>_. - 5) =
     Emergency ''check: Failed to measure voltage''"
proof -
  let ?bm1 = "periodic_check_presence n810bm_zeroed {} (\<lambda>_. 0)"
  have d: "\<not> n810bm_known_battery_present ?bm1"
    by (simp add: n810bm_known_battery_present_def presence_fields)
  then have d': "(battery_present ?bm1 \<and> \<not> charger_present ?bm1) \<or>
      \<not> n810bm_known_battery_present ?bm1"
    by simp
  have ex5: "\<exists>i::nat. i < 5"
    by (rule exI [of _ 0]) simp
  have lo: "n810bm_periodic_check_work n810bm_zeroed {} (\<lambda>_. 0) (\<lambda>_. 201) =
     Emergency ''check: Minimum voltage threshold reached''"
    using periodic_check_voltage_floor [of n810bm_zeroed "{}" "\<lambda>_. 0" "\<lambda>_. 201",
            THEN conjunct2, THEN conjunct2, THEN mp, OF d', THEN conjunct1]
    by (simp add: measure_201 word_sless_alt)
  have hi_mv: "3200 \<le>s n810bm_measure_batt_voltage (\<lambda>_. 202)"
    by (simp add: measure_202 word_sle_eq)
  have hi: "n810bm_periodic_check_work n810bm_zeroed {} (\<lambda>_. 0) (\<lambda>_. 202) =
     Done (periodic_check_charge ?bm1)"
    using periodic_check_voltage_floor [of n810bm_zeroed "{}" "\<lambda>_. 0" "\<lambda>_. 202",
            THEN conjunct2, THEN conjunct2, THEN mp, OF d'] hi_mv
    by blast
  have fail: "n810bm_periodic_check_work n810bm_zeroed {} (\<lambda>_. 0) (\<lambda>_. - 5) =
     Emergency ''check: Failed to measure voltage''"
    using periodic_check_voltage_floor [of n810bm_zeroed "{}" "\<lambda>_. 0" "\<lambda>_. - 5",
            THEN conjunct2, THEN conjunct2, THEN mp, OF d', THEN conjunct1] ex5
    by (simp add: word_sless_alt)
  from d measure_201 lo hi_mv hi fail show ?thesis
    by blast
qed

subsection \<open>Calibration slot lookup and record extraction\<close>

lemma get_adc_calib_bound:
  "n810bm_get_adc_calib bm ident = Some k \<Longrightarrow> k < 25"
  by (auto simp add: n810bm_get_adc_calib_def Let_def not_le word_less_nat_alt split: if_splits)

lemma get_adc_calib_state: "n810bm_get_adc_calib bm ident = n810bm_get_adc_calib bm' ident"
  by (simp add: n810bm_get_adc_calib_def)

lemma unat_ucast_u8_u32: "unat (ucast (b :: u8) :: u32) = unat b"
proof -
  have "unat b < 2 ^ 32"
    using unsigned_less [of b, where 'a = nat] by simp
  then have "take_bit 32 (unat b) = unat b"
    by (simp only: take_bit_nat_eq_self)
  then show ?thesis
    by (simp add: unsigned_ucast_eq)
qed

lemma ucast_u8_eq_FE: "(ucast (b :: u8) :: u32) = 0xFE \<longleftrightarrow> b = 0xFE"
proof
  assume "(ucast b :: u32) = 0xFE"
  then have "unat (ucast b :: u32) = unat (0xFE :: u32)" by simp
  then have "unat b = unat (0xFE :: u8)" by (simp add: unat_ucast_u8_u32)
  then show "b = 0xFE" by (simp only: word_unat_eq_iff)
next
  assume "b = 0xFE" then show "(ucast b :: u32) = 0xFE" by simp
qed

lemma unat_ucast_succ: "unat ((ucast (b :: u8) :: u32) + 1) = unat b + 1"
proof -
  have "unat b < 256" using unsigned_less [of b] by simp
  then have "unat (ucast b :: u32) + unat (1 :: u32) < 2 ^ LENGTH(32)"
    by (simp add: unat_ucast_u8_u32)
  then have "unat ((ucast b :: u32) + 1) = unat (ucast b :: u32) + unat (1 :: u32)"
    by (simp only: unat_add_lem)
  then show ?thesis by (simp add: unat_ucast_u8_u32)
qed

lemma get_adc_calib_byte:
  "n810bm_get_adc_calib bm (ucast (b :: u8)) =
     (if b = 0xFE then Some 0 else if 24 \<le> unat b then None else Some (unat b + 1))"
proof -
  have le: "(25 \<le> (ucast b :: u32) + 1) \<longleftrightarrow> 24 \<le> unat b"
    by (simp add: word_le_nat_alt unat_ucast_succ)
  show ?thesis
    by (simp add: n810bm_get_adc_calib_def Let_def N810BM_PMM_ADC_0xFE_def ucast_u8_eq_FE le
                  unat_ucast_succ)
qed

lemma get_adc_calib_word:
  "n810bm_get_adc_calib bm ident =
     (if ident = 0xFE then Some 0 else if 25 \<le> ident + 1 then None else Some (unat (ident + 1)))"
  by (simp add: n810bm_get_adc_calib_def Let_def N810BM_PMM_ADC_0xFE_def)

lemma extract_length:
  "length (calib (snd (extract_group1_elem bm fw ids m1 m2))) = length (calib bm)"
proof (induction ids arbitrary: bm)
  case Nil
  then show ?case by simp
next
  case (Cons pid ids)
  show ?case
    by (simp add: Let_def Cons.IH split: sum.splits option.splits)
qed

lemma extract_err:
  "fst (extract_group1_elem bm fw ids m1 m2) = 0 \<or>
   fst (extract_group1_elem bm fw ids m1 m2) = - EINVAL"
proof (induction ids arbitrary: bm)
  case Nil
  then show ?case by simp
next
  case (Cons pid ids)
  show ?case
    using Cons.IH by (simp add: Let_def split: sum.splits option.splits)
qed

lemma extract_ok_iff:
  "fst (extract_group1_elem bm fw ids m1 m2) = 0 \<longleftrightarrow> list_all (record_has_slot fw) ids"
proof (induction ids arbitrary: bm)
  case Nil
  then show ?case by simp
next
  case (Cons pid ids)
  have ne: "- EINVAL \<noteq> (0 :: s32)"
    by (simp add: EINVAL_def)
  show ?case
    using ne
    by (auto simp add: Let_def Cons.IH record_has_slot_def group1_element_of_def
          get_adc_calib_byte split: sum.splits option.splits if_splits)
qed

lemma bad_id_record:
  "pmm_record_get pmm_blob_bad_id 12 1 (unat (N810BM_PMM_ADC_BATVOLT + 3)) 0 =
     Inr [0x50, 0, 0, 0, 0, 0, 0, 0, 0, 0, 0, 0]"
  by code_simp

lemma fold_set_default_length:
  "length (calib (fold set_default ds bm)) = length (calib bm)"
proof (induction ds arbitrary: bm)
  case Nil
  then show ?case by simp
next
  case (Cons d ds)
  have "length (calib (set_default d bm)) = length (calib bm)"
    by (simp add: set_default_def split: option.splits)
  then show ?case
    by (simp add: Cons.IH)
qed

lemma set_defaults_length: "length (calib (n810bm_adc_calib_set_defaults bm)) = 25"
  by (simp add: n810bm_adc_calib_set_defaults_def fold_set_default_length)

lemma record_slot_state: "record_slot bm fw pid = record_slot bm' fw pid"
  by (simp add: record_slot_def get_adc_calib_state [of bm _ bm'] split: sum.splits)

lemma extract_above_unchanged:
  "drop 25 (calib (snd (extract_group1_elem bm fw ids m1 m2))) = drop 25 (calib bm)"
proof (induction ids arbitrary: bm)
  case Nil
  then show ?case by simp
next
  case (Cons pid ids)
  show ?case
  proof (cases "pmm_record_get fw 12 1 (unat (pid + 3)) 0")
    case (Inl err)
    then show ?thesis
      using Cons.IH [of bm] by simp
  next
    case (Inr bytes)
    show ?thesis
    proof (cases "n810bm_get_adc_calib bm (ucast (elem_id (group1_element_of bytes)))")
      case None
      with Inr show ?thesis by (simp add: Let_def)
    next
      case (Some idx)
      have lt: "idx < 25"
        using Some by (rule get_adc_calib_bound)
      let ?bm' = "bm\<lparr>calib := (calib bm)[idx := (calib bm ! idx)
          \<lparr>field1 := elem_field1 (group1_element_of bytes) AND m1,
           field2 := elem_field2 (group1_element_of bytes) AND m2\<rparr>]\<rparr>"
      have d: "drop 25 (calib ?bm') = drop 25 (calib bm)"
        using lt by (simp add: drop_update_cancel)
      show ?thesis
        using Inr Some Cons.IH [of ?bm'] Cons.IH [of bm] d
        by (simp add: Let_def)
    qed
  qed
qed

lemma extract_other_slots_unchanged:
  assumes "Some k \<notin> set (map (record_slot bm fw) ids)"
  shows "calib (snd (extract_group1_elem bm fw ids m1 m2)) ! k = calib bm ! k"
  using assms
proof (induction ids arbitrary: bm)
  case Nil
  then show ?case by simp
next
  case (Cons pid ids)
  have rest: "Some k \<notin> set (map (record_slot b fw) ids)" for b
    using Cons.prems record_slot_state [of b fw _ bm] by (simp add: image_iff)
  have here: "record_slot bm fw pid \<noteq> Some k"
    using Cons.prems by auto
  show ?case
  proof (cases "pmm_record_get fw 12 1 (unat (pid + 3)) 0")
    case (Inl err)
    then show ?thesis
      using Cons.IH [OF rest, of bm] by simp
  next
    case (Inr bytes)
    show ?thesis
    proof (cases "n810bm_get_adc_calib bm (ucast (elem_id (group1_element_of bytes)))")
      case None
      with Inr show ?thesis by (simp add: Let_def)
    next
      case (Some idx)
      have "idx \<noteq> k"
        using here Inr Some by (simp add: record_slot_def group1_element_of_def)
      let ?bm' = "bm\<lparr>calib := (calib bm)[idx := (calib bm ! idx)
          \<lparr>field1 := elem_field1 (group1_element_of bytes) AND m1,
           field2 := elem_field2 (group1_element_of bytes) AND m2\<rparr>]\<rparr>"
      have d: "calib ?bm' ! k = calib bm ! k"
        using \<open>idx \<noteq> k\<close> by simp
      show ?thesis
        using Inr Some Cons.IH [OF rest, of ?bm'] Cons.IH [OF rest, of bm] d
        by (simp add: Let_def)
    qed
  qed
qed

lemma element2_above_unchanged:
  assumes "group1_element2 bm elem = Inr b1"
  shows "drop 25 (calib b1) = drop 25 (calib bm)"
proof (cases "ucast (elem_id elem) = N810BM_PMM_ADC_0xFE \<and> elem_flags elem = 0x05")
  case False
  with assms show ?thesis
    by (auto simp add: group1_element2_def)
next
  case True
  show ?thesis
  proof (cases "n810bm_get_adc_calib bm (ucast (elem_id elem))")
    case None
    with assms True show ?thesis
      by (simp add: group1_element2_def)
  next
    case (Some idx)
    have "idx < 25"
      using Some by (rule get_adc_calib_bound)
    with assms True Some show ?thesis
      by (auto simp add: group1_element2_def drop_update_cancel)
  qed
qed

lemma lists_above_unchanged:
  "drop 25 (calib (snd (group1_lists bm fw))) = drop 25 (calib bm)"
  by (simp add: group1_lists_def case_prod_beta extract_above_unchanged)

lemma group1_above_unchanged:
  "drop 25 (calib (snd (n810bm_parse_pmm_group1 bm fw))) = drop 25 (calib bm)"
proof (cases "pmm_record_get fw 12 1 2 0")
  case (Inl err)
  then show ?thesis
    by (simp only: n810bm_parse_pmm_group1_def sum.case) simp
next
  case (Inr bytes)
  show ?thesis
  proof (cases "group1_element2 bm (group1_element_of bytes)")
    case (Inl err)
    with Inr show ?thesis
      by (simp only: n810bm_parse_pmm_group1_def sum.case) simp
  next
    case b1: (Inr b1)
    have "drop 25 (calib (snd (group1_lists b1 fw))) = drop 25 (calib bm)"
      using lists_above_unchanged [of b1 fw] element2_above_unchanged [OF b1] by simp
    with Inr b1 show ?thesis
      by (simp only: n810bm_parse_pmm_group1_def sum.case)
  qed
qed

text \<open>
  C10. The slot lookup is total and in bounds: the table has 25 slots once the defaults
  are set, and a slot index the lookup returns is below 25; an id other than \<open>0xFE\<close> is
  looked up at \<open>id + 1\<close> (unsigned) and has no slot when that reaches 25, \<open>0xFE\<close> has
  slot 0; for an id byte of the blob the slot exists iff the byte is \<open>0xFE\<close> or below 24.
  The extraction of group-1 records keeps the table's length, returns 0 or \<open>-EINVAL\<close>,
  and returns 0 exactly when every record it could fetch has an id byte with a slot; at a
  fetched record without a slot it stops with \<open>-EINVAL\<close> and writes nothing. It writes
  only inside the array: for a table of any length the entries from index 25 on are left
  as they were, a slot that is not the slot of the id byte of a fetched record is left as
  it was, and the slot of such an id byte is below 25. The whole group-1 parse, the
  record of element 2 included, also leaves the entries from index 25 on as they were.
\<close>

theorem calib_lookup_in_bounds:
  "length (calib (n810bm_adc_calib_set_defaults bm)) = 25 \<and>
   (n810bm_get_adc_calib bm ident = Some k \<longrightarrow> k < 25) \<and>
   n810bm_get_adc_calib bm ident =
     (if ident = 0xFE then Some 0
      else if 25 \<le> ident + 1 then None else Some (unat (ident + 1))) \<and>
   n810bm_get_adc_calib bm (ucast (b :: u8)) =
     (if b = 0xFE then Some 0 else if 24 \<le> unat b then None else Some (unat b + 1)) \<and>
   length (calib (snd (extract_group1_elem bm fw ids m1 m2))) = length (calib bm) \<and>
   (fst (extract_group1_elem bm fw ids m1 m2) = 0 \<longleftrightarrow> list_all (record_has_slot fw) ids) \<and>
   (fst (extract_group1_elem bm fw ids m1 m2) = 0 \<or>
    fst (extract_group1_elem bm fw ids m1 m2) = - EINVAL) \<and>
   (pmm_record_get fw 12 1 (unat (pid + 3)) 0 = Inr bytes \<and>
    n810bm_get_adc_calib bm (ucast (bytes ! 0)) = None \<longrightarrow>
      extract_group1_elem bm fw (pid # ids) m1 m2 = (- EINVAL, bm)) \<and>
   drop 25 (calib (snd (extract_group1_elem bm fw ids m1 m2))) = drop 25 (calib bm) \<and>
   (Some j \<notin> set (map (record_slot bm fw) ids) \<longrightarrow>
      calib (snd (extract_group1_elem bm fw ids m1 m2)) ! j = calib bm ! j) \<and>
   (record_slot bm fw pid = Some j \<longrightarrow> j < 25) \<and>
   drop 25 (calib (snd (n810bm_parse_pmm_group1 bm fw))) = drop 25 (calib bm)"
proof -
  have abort: "extract_group1_elem bm fw (pid # ids) m1 m2 = (- EINVAL, bm)"
    if "pmm_record_get fw 12 1 (unat (pid + 3)) 0 = Inr bytes"
       "n810bm_get_adc_calib bm (ucast (bytes ! 0)) = None"
    using that by (simp add: Let_def group1_element_of_def)
  have bound: "k < 25" if "n810bm_get_adc_calib bm ident = Some k"
    using that by (rule get_adc_calib_bound)
  have other: "calib (snd (extract_group1_elem bm fw ids m1 m2)) ! j = calib bm ! j"
    if "Some j \<notin> set (map (record_slot bm fw) ids)"
    using that by (rule extract_other_slots_unchanged)
  have slot: "j < 25" if "record_slot bm fw pid = Some j"
    using that by (auto simp add: record_slot_def split: sum.splits dest: get_adc_calib_bound)
  from abort bound other slot set_defaults_length [of bm]
       get_adc_calib_word [of bm ident] get_adc_calib_byte [of bm b]
       extract_length [of bm fw ids m1 m2] extract_ok_iff [of bm fw ids m1 m2]
       extract_err [of bm fw ids m1 m2] extract_above_unchanged [of bm fw ids m1 m2]
       group1_above_unchanged [of bm fw]
  show ?thesis by blast
qed

theorem calib_lookup_in_bounds_witness:
  "n810bm_get_adc_calib n810bm_zeroed 0x17 = Some 24 \<and> (24 :: nat) < 25 \<and>
   n810bm_get_adc_calib n810bm_zeroed 0x18 = None \<and>
   n810bm_get_adc_calib n810bm_zeroed 0xFE = Some 0 \<and>
   n810bm_get_adc_calib n810bm_zeroed 0xFF = None \<and>
   pmm_record_get pmm_blob_bad_id 12 1 (unat (N810BM_PMM_ADC_BATVOLT + 3)) 0 =
     Inr [0x50, 0, 0, 0, 0, 0, 0, 0, 0, 0, 0, 0] \<and>
   n810bm_get_adc_calib n810bm_zeroed (ucast (0x50 :: u8)) = None \<and>
   extract_group1_elem n810bm_zeroed pmm_blob_bad_id pmm_adc_ids_1 0xFFFFFFFF 0xFFFFFFFF =
     (- EINVAL, n810bm_zeroed) \<and>
   map (record_slot n810bm_defaulted pmm_blob_out_of_range) pmm_adc_ids_1 =
     [Some 2, Some 1, Some 1, Some 1] \<and>
   Some 3 \<notin> set (map (record_slot n810bm_defaulted pmm_blob_out_of_range) pmm_adc_ids_1) \<and>
   calib (snd (extract_group1_elem n810bm_defaulted pmm_blob_out_of_range pmm_adc_ids_1
     0xFFFFFFFF 0xFFFFFFFF)) ! 3 = calib n810bm_defaulted ! 3 \<and>
   field1 (calib n810bm_defaulted ! 2) = 2527 \<and>
   field1 (calib (snd (extract_group1_elem n810bm_defaulted pmm_blob_out_of_range pmm_adc_ids_1
     0xFFFFFFFF 0xFFFFFFFF)) ! 2) = 0"
proof -
  note t = calib_lookup_in_bounds [of n810bm_zeroed _ _ _ pmm_blob_bad_id _ _ _
             N810BM_PMM_ADC_BATVOLT "[0x50, 0, 0, 0, 0, 0, 0, 0, 0, 0, 0, 0]"]
  have g: "n810bm_get_adc_calib n810bm_zeroed 0x17 = Some 24"
          "n810bm_get_adc_calib n810bm_zeroed 0x18 = None"
          "n810bm_get_adc_calib n810bm_zeroed 0xFE = Some 0"
          "n810bm_get_adc_calib n810bm_zeroed 0xFF = None"
    by (simp_all add: get_adc_calib_word)
  have n: "n810bm_get_adc_calib n810bm_zeroed (ucast (0x50 :: u8)) = None"
    by (simp add: get_adc_calib_word)
  then have n': "n810bm_get_adc_calib n810bm_zeroed
      (ucast ([0x50, 0, 0, 0, 0, 0, 0, 0, 0, 0, 0, 0 :: u8] ! 0)) = None"
    by simp
  have "extract_group1_elem n810bm_zeroed pmm_blob_bad_id
          (N810BM_PMM_ADC_BATVOLT # [N810BM_PMM_ADC_CHGVOLT, N810BM_PMM_ADC_BKUPVOLT,
             N810BM_PMM_ADC_BATCURR]) 0xFFFFFFFF 0xFFFFFFFF = (- EINVAL, n810bm_zeroed)"
    using t [THEN conjunct2, THEN conjunct2, THEN conjunct2, THEN conjunct2, THEN conjunct2,
             THEN conjunct2, THEN conjunct2, THEN conjunct1, THEN mp, OF conjI,
             OF bad_id_record n'] .
  then have e: "extract_group1_elem n810bm_zeroed pmm_blob_bad_id pmm_adc_ids_1
      0xFFFFFFFF 0xFFFFFFFF = (- EINVAL, n810bm_zeroed)"
    by (simp only: pmm_adc_ids_1_def)
  have slots: "map (record_slot n810bm_defaulted pmm_blob_out_of_range) pmm_adc_ids_1 =
     [Some 2, Some 1, Some 1, Some 1]"
    by code_simp
  then have free: "Some 3 \<notin> set (map (record_slot n810bm_defaulted pmm_blob_out_of_range)
      pmm_adc_ids_1)"
    by simp
  have kept: "calib (snd (extract_group1_elem n810bm_defaulted pmm_blob_out_of_range
      pmm_adc_ids_1 0xFFFFFFFF 0xFFFFFFFF)) ! 3 = calib n810bm_defaulted ! 3"
    using calib_lookup_in_bounds [where bm = n810bm_defaulted and fw = pmm_blob_out_of_range
            and ids = pmm_adc_ids_1 and j = 3 and ?m1.0 = "0xFFFFFFFF" and ?m2.0 = "0xFFFFFFFF"]
          free
    by blast
  have before: "field1 (calib n810bm_defaulted ! 2) = 2527"
    by code_simp
  have written: "field1 (calib (snd (extract_group1_elem n810bm_defaulted pmm_blob_out_of_range
      pmm_adc_ids_1 0xFFFFFFFF 0xFFFFFFFF)) ! 2) = 0"
    by code_simp
  from g n bad_id_record e slots free kept before written show ?thesis
    by simp
qed

subsection \<open>Loading the calibration blob\<close>

lemma block_found_invalid:
  assumes "length fw \<noteq> 0x600 \<or> take 15 fw \<noteq> pmm_magic"
  shows "n810bm_pmm_block_found bm (Some fw) uninit env = Done (PMM_INVALID_FORMAT, bm)"
  using assms by (auto simp add: n810bm_pmm_block_found_def N810BM_PMM_BLOCK_SIZE_def)

lemma block_found_valid:
  assumes "\<not> (length fw \<noteq> 0x600 \<or> take 15 fw \<noteq> pmm_magic)"
  shows "n810bm_pmm_block_found bm (Some fw) uninit env \<noteq> Done (PMM_INVALID_FORMAT, bm')"
  using assms
  by (auto simp add: n810bm_pmm_block_found_def N810BM_PMM_BLOCK_SIZE_def
        split: prod.splits outcome.splits)

text \<open>
  C5. A blob whose size is not 1536 bytes, or whose first 15 bytes are not the magic
  \<open>BME-PMM-BLOCK01\<close>, is refused as having an invalid format, and the controller,
  its calibration table included, is left exactly as it was: neither the parser nor the
  device initialisation ran. No other blob takes this exit.
\<close>

theorem pmm_block_found_bad_header:
  "(length fw \<noteq> 0x600 \<or> take 15 fw \<noteq> map of_char ''BME-PMM-BLOCK01'' \<longrightarrow>
      n810bm_pmm_block_found bm (Some fw) uninit env = Done (PMM_INVALID_FORMAT, bm)) \<and>
   ((\<exists>bm'. n810bm_pmm_block_found bm (Some fw) uninit env = Done (PMM_INVALID_FORMAT, bm')) \<longleftrightarrow>
      length fw \<noteq> 0x600 \<or> take 15 fw \<noteq> map of_char ''BME-PMM-BLOCK01'')"
proof -
  have m: "map of_char ''BME-PMM-BLOCK01'' = pmm_magic"
    by (simp only: pmm_magic_def)
  show ?thesis
    unfolding m
    using block_found_invalid [of fw bm uninit env] block_found_valid [of fw bm uninit env]
    by (cases "length fw \<noteq> 0x600 \<or> take 15 fw \<noteq> pmm_magic") auto
qed

theorem pmm_block_found_bad_header_witness:
  "length pmm_blob_short = 1535 \<and>
   take 15 pmm_blob_short = map of_char ''BME-PMM-BLOCK01'' \<and>
   (\<forall>uninit env. n810bm_pmm_block_found n810bm_zeroed (Some pmm_blob_short) uninit env =
      Done (PMM_INVALID_FORMAT, n810bm_zeroed)) \<and>
   length pmm_blob_no_magic = 0x600 \<and>
   take 15 pmm_blob_no_magic \<noteq> map of_char ''BME-PMM-BLOCK01'' \<and>
   (\<forall>uninit env. n810bm_pmm_block_found n810bm_zeroed (Some pmm_blob_no_magic) uninit env =
      Done (PMM_INVALID_FORMAT, n810bm_zeroed))"
proof -
  have l1: "length pmm_blob_short = 1535"
    by (simp add: pmm_blob_short_def pmm_magic_def)
  have t1: "take 15 pmm_blob_short = map of_char ''BME-PMM-BLOCK01''"
    by (simp add: pmm_blob_short_def pmm_magic_def)
  have l2: "length pmm_blob_no_magic = 0x600"
    by (simp add: pmm_blob_no_magic_def)
  have "hd (take 15 pmm_blob_no_magic) \<noteq> hd (map of_char ''BME-PMM-BLOCK01'')"
    by (simp add: pmm_blob_no_magic_def)
  then have t2: "take 15 pmm_blob_no_magic \<noteq> map of_char ''BME-PMM-BLOCK01''"
    by metis
  have r1: "n810bm_pmm_block_found n810bm_zeroed (Some pmm_blob_short) uninit env =
      Done (PMM_INVALID_FORMAT, n810bm_zeroed)" for uninit env
    using pmm_block_found_bad_header [of pmm_blob_short n810bm_zeroed uninit env] l1 by simp
  have r2: "n810bm_pmm_block_found n810bm_zeroed (Some pmm_blob_no_magic) uninit env =
      Done (PMM_INVALID_FORMAT, n810bm_zeroed)" for uninit env
    using pmm_block_found_bad_header [of pmm_blob_no_magic n810bm_zeroed uninit env] t2 by simp
  from l1 t1 l2 t2 r1 r2 show ?thesis by blast
qed

subsection \<open>The calibration parser\<close>

lemma fold_set_default:
  "calib (fold set_default ds bm) = fold store_default ds (calib bm)"
proof (induction ds arbitrary: bm)
  case Nil
  then show ?case by simp
next
  case (Cons d ds)
  have "calib (set_default d bm) = store_default d (calib bm)"
    by (simp add: set_default_def store_default_def
          get_adc_calib_state [of bm _ n810bm_zeroed] split: option.splits)
  then show ?case
    by (simp add: Cons.IH)
qed

lemma set_defaults_calib:
  "calib (n810bm_adc_calib_set_defaults bm) =
     fold store_default defaults (replicate 25 (calib_default 0 0xFF 0 0 0 0 0))"
  by (simp add: n810bm_adc_calib_set_defaults_def fold_set_default)

lemma default_table_signature:
  "calib_signature (fold store_default defaults (replicate 25 (calib_default 0 0xFF 0 0 0 0 0)))
     = default_signature"
  by code_simp

lemma set_defaults_signature:
  "calib_signature (calib (n810bm_adc_calib_set_defaults bm)) = default_signature"
  by (simp only: set_defaults_calib default_table_signature)

lemma signature_length: "calib_signature t = default_signature \<Longrightarrow> length t = 25"
proof -
  assume "calib_signature t = default_signature"
  then have "length (calib_signature t) = length default_signature" by simp
  then show ?thesis by (simp add: calib_signature_def default_signature_def)
qed

lemma signature_update_fields:
  assumes "idx < length t"
  shows "calib_signature (t[idx := (t ! idx)\<lparr>field1 := a, field2 := b\<rparr>]) = calib_signature t"
proof -
  have "calib_signature (t[idx := (t ! idx)\<lparr>field1 := a, field2 := b\<rparr>]) =
        (calib_signature t)[idx := calib_signature t ! idx]"
    using assms by (simp add: calib_signature_def map_update)
  then show ?thesis by simp
qed

lemma extract_signature:
  assumes "length (calib bm) = 25"
  shows "calib_signature (calib (snd (extract_group1_elem bm fw ids m1 m2))) =
         calib_signature (calib bm)"
  using assms
proof (induction ids arbitrary: bm)
  case Nil
  then show ?case by simp
next
  case (Cons pid ids)
  show ?case
  proof (cases "pmm_record_get fw 12 1 (unat (pid + 3)) 0")
    case (Inl err)
    then show ?thesis
      using Cons.IH [OF Cons.prems] by simp
  next
    case (Inr bytes)
    show ?thesis
    proof (cases "n810bm_get_adc_calib bm (ucast (elem_id (group1_element_of bytes)))")
      case None
      with Inr show ?thesis by (simp add: Let_def)
    next
      case (Some idx)
      then have lt: "idx < length (calib bm)"
        using get_adc_calib_bound [OF Some] Cons.prems by simp
      let ?bm' = "bm\<lparr>calib := (calib bm)[idx := (calib bm ! idx)
          \<lparr>field1 := elem_field1 (group1_element_of bytes) AND m1,
           field2 := elem_field2 (group1_element_of bytes) AND m2\<rparr>]\<rparr>"
      have g: "n810bm_get_adc_calib ?bm' = n810bm_get_adc_calib bm"
        by (rule ext) (rule get_adc_calib_state)
      have len: "length (calib ?bm') = 25"
        using Cons.prems by simp
      have sig: "calib_signature (calib ?bm') = calib_signature (calib bm)"
        using lt by (simp add: signature_update_fields)
      show ?thesis
        using Inr Some Cons.IH [OF len] Cons.IH [OF Cons.prems] sig
        by (simp add: Let_def)
    qed
  qed
qed

lemma element2_signature:
  assumes "calib_signature (calib bm) = default_signature"
      and "group1_element2 bm elem = Inr bm1"
  shows "calib_signature (calib bm1) = default_signature"
proof (cases "ucast (elem_id elem) = N810BM_PMM_ADC_0xFE \<and> elem_flags elem = 0x05")
  case False
  with assms show ?thesis
    by (auto simp add: group1_element2_def)
next
  case True
  have len: "length (calib bm) = 25"
    using assms(1) by (rule signature_length)
  have slot: "n810bm_get_adc_calib bm (ucast (elem_id elem)) = Some 0"
    using True by (simp add: get_adc_calib_word N810BM_PMM_ADC_0xFE_def)
  have bm1: "bm1 = bm\<lparr>calib := (calib bm)
      [0 := (calib bm ! 0)\<lparr>adc_id := 0xFE, flags := 0x05,
                             field1 := elem_field1 elem, field2 := elem_field2 elem\<rparr>]\<rparr>"
    using assms(2) True slot by (auto simp add: group1_element2_def N810BM_PMM_ADC_0xFE_def)
  have "calib_signature (calib bm1) = (calib_signature (calib bm))[0 := (0xFE, 0x05)]"
    unfolding bm1 by (simp add: calib_signature_def map_update)
  also have "\<dots> = default_signature"
    unfolding assms(1) by (simp add: default_signature_def)
  finally show ?thesis .
qed

lemma element2_ok:
  "\<exists>bm1. group1_element2 bm elem = Inr bm1"
  by (simp add: group1_element2_def get_adc_calib_word N810BM_PMM_ADC_0xFE_def)

lemma lists_signature:
  assumes "calib_signature (calib bm) = default_signature"
  shows "calib_signature (calib (snd (group1_lists bm fw))) = default_signature"
proof -
  let ?r1 = "extract_group1_elem bm fw pmm_adc_ids_1 0xFFFFFFFF 0xFFFFFFFF"
  let ?r2 = "extract_group1_elem (snd ?r1) fw pmm_adc_ids_2 0xFFFFFFFF 0"
  let ?r3 = "extract_group1_elem (snd ?r2) fw pmm_adc_ids_3 0xFFFFFFFF 0x0000FFFF"
  have s1: "calib_signature (calib (snd ?r1)) = default_signature"
    using assms extract_signature [OF signature_length [OF assms]] by simp
  have s2: "calib_signature (calib (snd ?r2)) = default_signature"
    using s1 extract_signature [OF signature_length [OF s1]] by simp
  have s3: "calib_signature (calib (snd ?r3)) = default_signature"
    using s2 extract_signature [OF signature_length [OF s2]] by simp
  show ?thesis
    using s1 s2 s3
    by (simp add: group1_lists_def case_prod_beta)
qed

lemma lists_err:
  "fst (group1_lists bm fw) =
     (if list_all (record_has_slot fw) (pmm_adc_ids_1 @ pmm_adc_ids_2 @ pmm_adc_ids_3)
      then 0 else - EINVAL)"
proof -
  let ?r1 = "extract_group1_elem bm fw pmm_adc_ids_1 0xFFFFFFFF 0xFFFFFFFF"
  let ?r2 = "extract_group1_elem (snd ?r1) fw pmm_adc_ids_2 0xFFFFFFFF 0"
  let ?r3 = "extract_group1_elem (snd ?r2) fw pmm_adc_ids_3 0xFFFFFFFF 0x0000FFFF"
  note e1 = extract_ok_iff [of bm fw pmm_adc_ids_1 "0xFFFFFFFF" "0xFFFFFFFF"]
       extract_err [of bm fw pmm_adc_ids_1 "0xFFFFFFFF" "0xFFFFFFFF"]
  note e2 = extract_ok_iff [of "snd ?r1" fw pmm_adc_ids_2 "0xFFFFFFFF" 0]
       extract_err [of "snd ?r1" fw pmm_adc_ids_2 "0xFFFFFFFF" 0]
  note e3 = extract_ok_iff [of "snd ?r2" fw pmm_adc_ids_3 "0xFFFFFFFF" "0x0000FFFF"]
       extract_err [of "snd ?r2" fw pmm_adc_ids_3 "0xFFFFFFFF" "0x0000FFFF"]
  have ne: "- EINVAL \<noteq> (0 :: s32)"
    by (simp add: EINVAL_def)
  have "fst (group1_lists bm fw) =
          (if fst ?r1 \<noteq> 0 then fst ?r1 else if fst ?r2 \<noteq> 0 then fst ?r2
           else if fst ?r3 \<noteq> 0 then fst ?r3 else 0)"
    by (simp add: group1_lists_def case_prod_beta)
  then show ?thesis
    using e1 e2 e3 ne by (auto simp add: list_all_append)
qed

lemma sig_nth:
  assumes "calib_signature t = default_signature" "i < 25"
  shows "adc_id (t ! i) = fst (default_signature ! i) \<and> flags (t ! i) = snd (default_signature ! i)"
proof -
  have len: "length t = 25" using assms(1) by (rule signature_length)
  have "calib_signature t ! i = default_signature ! i" using assms(1) by simp
  then have "(adc_id (t ! i), flags (t ! i)) = default_signature ! i"
    using assms(2) len by (simp add: calib_signature_def)
  then show ?thesis
    by (metis fst_conv snd_conv)
qed

lemma sig_facts:
  assumes "calib_signature t = default_signature"
  shows "adc_id (t ! 0) = 0xFE" "flags (t ! 0) = 0x05" "flags (t ! 1) = 0xFF"
             "adc_id (t ! 2) = 0x01" "flags (t ! 2) = 0x01" "adc_id (t ! 3) = 0x02" "flags (t ! 3) = 0x01"
             "adc_id (t ! 4) = 0x03" "flags (t ! 4) = 0x00" "adc_id (t ! 5) = 0x04" "flags (t ! 5) = 0x02"
             "adc_id (t ! 6) = 0x05" "flags (t ! 6) = 0x03" "adc_id (t ! 7) = 0x06" "flags (t ! 7) = 0x00"
             "adc_id (t ! 8) = 0x07" "flags (t ! 8) = 0x00" "adc_id (t ! 9) = 0x08" "flags (t ! 9) = 0x00"
             "flags (t ! 10) = 0xFF" "flags (t ! 11) = 0xFF" "flags (t ! 12) = 0xFF" "flags (t ! 13) = 0xFF"
             "flags (t ! 14) = 0xFF" "adc_id (t ! 15) = 0x0E" "flags (t ! 15) = 0x06"
             "flags (t ! 16) = 0xFF" "flags (t ! 17) = 0xFF" "flags (t ! 18) = 0xFF" "flags (t ! 19) = 0xFF"
             "adc_id (t ! 20) = 0x13" "flags (t ! 20) = 0x01" "adc_id (t ! 21) = 0x14" "flags (t ! 21) = 0x04"
             "adc_id (t ! 22) = 0x15" "flags (t ! 22) = 0x00" "adc_id (t ! 23) = 0x16" "flags (t ! 23) = 0x00"
             "adc_id (t ! 24) = 0x17" "flags (t ! 24) = 0x00"
  using sig_nth [OF assms, of 0] sig_nth [OF assms, of 1] sig_nth [OF assms, of 2]
        sig_nth [OF assms, of 3] sig_nth [OF assms, of 4] sig_nth [OF assms, of 5]
        sig_nth [OF assms, of 6] sig_nth [OF assms, of 7] sig_nth [OF assms, of 8]
        sig_nth [OF assms, of 9] sig_nth [OF assms, of 10] sig_nth [OF assms, of 11]
        sig_nth [OF assms, of 12] sig_nth [OF assms, of 13] sig_nth [OF assms, of 14]
        sig_nth [OF assms, of 15] sig_nth [OF assms, of 16] sig_nth [OF assms, of 17]
        sig_nth [OF assms, of 18] sig_nth [OF assms, of 19] sig_nth [OF assms, of 20]
        sig_nth [OF assms, of 21] sig_nth [OF assms, of 22] sig_nth [OF assms, of 23]
        sig_nth [OF assms, of 24]
  by (simp_all add: default_signature_def)

lemma list25:
  assumes "length t = 25"
  shows "t = [t ! 0, t ! 1, t ! 2, t ! 3, t ! 4, t ! 5, t ! 6, t ! 7, t ! 8, t ! 9, t ! 10, t ! 11,
              t ! 12, t ! 13, t ! 14, t ! 15, t ! 16, t ! 17, t ! 18, t ! 19, t ! 20, t ! 21,
              t ! 22, t ! 23, t ! 24]"
  using assms by (intro nth_equalityI) (auto simp add: nth_Cons' less_Suc_eq numeral_eq_Suc)

lemma sanity_unrolled:
  assumes sig: "calib_signature t = default_signature"
  shows "sanity_checks t 0 =
     (if 14 <s field1 (t ! 0) \<or> field1 (t ! 0) <s - 14 then Inl (t ! 0)
      else if field2 (t ! 0) < 13000 \<or> field2 (t ! 0) > 13350 then Inl (t ! 0)
      else if field1 (t ! 2) < 2400 \<or> field1 (t ! 2) > 2700 then Inl (t ! 2)
      else if field2 (t ! 2) < 20000 \<or> field2 (t ! 2) > 23000 then Inl (t ! 2)
      else if field1 (t ! 5) < 1100 \<or> field1 (t ! 5) > 1300 then Inl (t ! 5)
      else if field2 (t ! 15) < 7000 \<or> field2 (t ! 15) > 12000 then Inl (t ! 15) else Inr 7)"
proof -
  note s = sig_facts [OF sig]
  have len: "length t = 25" using sig by (rule signature_length)
  have tail: "sanity_checks [t ! 16, t ! 17, t ! 18, t ! 19, t ! 20, t ! 21, t ! 22, t ! 23, t ! 24] 6
                = Inr 7"
    by (simp add: s pmm_adc_id_defs)
  have mid: "sanity_checks (t ! 6 # t ! 7 # t ! 8 # t ! 9 # t ! 10 # t ! 11 # t ! 12 # t ! 13 #
                t ! 14 # rest) 4 = sanity_checks rest 5" for rest
    by (simp add: s pmm_adc_id_defs)
  have s15: "sanity_checks [t ! 15, t ! 16, t ! 17, t ! 18, t ! 19, t ! 20, t ! 21, t ! 22,
                t ! 23, t ! 24] 5 =
     (if field2 (t ! 15) < 7000 \<or> field2 (t ! 15) > 12000 then Inl (t ! 15) else Inr 7)"
    using tail by (simp add: s pmm_adc_id_defs)
  have s5: "sanity_checks (t ! 5 # t ! 6 # t ! 7 # t ! 8 # t ! 9 # t ! 10 # t ! 11 # t ! 12 #
                t ! 13 # t ! 14 # rest) 3 =
     (if field1 (t ! 5) < 1100 \<or> field1 (t ! 5) > 1300 then Inl (t ! 5)
      else sanity_checks rest 5)" for rest
    using mid [of rest] by (simp add: s pmm_adc_id_defs)
  have s2: "sanity_checks (t ! 2 # t ! 3 # t ! 4 # rest) 1 =
     (if field1 (t ! 2) < 2400 \<or> field1 (t ! 2) > 2700 then Inl (t ! 2)
      else if field2 (t ! 2) < 20000 \<or> field2 (t ! 2) > 23000 then Inl (t ! 2)
      else sanity_checks rest 3)" for rest
    by (simp add: s pmm_adc_id_defs)
  have s0: "sanity_checks (t ! 0 # t ! 1 # rest) 0 =
     (if 14 <s field1 (t ! 0) \<or> field1 (t ! 0) <s - 14 then Inl (t ! 0)
      else if field2 (t ! 0) < 13000 \<or> field2 (t ! 0) > 13350 then Inl (t ! 0)
      else sanity_checks rest 1)" for rest
    using s(3) by (simp add: s pmm_adc_id_defs)
  have "sanity_checks t 0 = sanity_checks [t ! 0, t ! 1, t ! 2, t ! 3, t ! 4, t ! 5, t ! 6,
      t ! 7, t ! 8, t ! 9, t ! 10, t ! 11, t ! 12, t ! 13, t ! 14, t ! 15, t ! 16, t ! 17,
      t ! 18, t ! 19, t ! 20, t ! 21, t ! 22, t ! 23, t ! 24] 0"
    by (rule arg_cong [where f = "\<lambda>x. sanity_checks x 0", OF list25 [OF len]])
  also have "\<dots> = (if 14 <s field1 (t ! 0) \<or> field1 (t ! 0) <s - 14 then Inl (t ! 0)
      else if field2 (t ! 0) < 13000 \<or> field2 (t ! 0) > 13350 then Inl (t ! 0)
      else if field1 (t ! 2) < 2400 \<or> field1 (t ! 2) > 2700 then Inl (t ! 2)
      else if field2 (t ! 2) < 20000 \<or> field2 (t ! 2) > 23000 then Inl (t ! 2)
      else if field1 (t ! 5) < 1100 \<or> field1 (t ! 5) > 1300 then Inl (t ! 5)
      else if field2 (t ! 15) < 7000 \<or> field2 (t ! 15) > 12000 then Inl (t ! 15) else Inr 7)"
    by (simp only: s0 s2 s5 s15)
  finally show ?thesis .
qed

lemma record_get_group1:
  "pmm_record_get fw len (Suc 0) element 0 =
     (if length fw \<noteq> 0x600 then Inl (- EINVAL)
      else if 32 \<le> element then Inl (- EINVAL)
      else if 16 < len then Inl (- EINVAL)
      else if fw ! 16 AND 2 = 0 then Inl (- ENOENT)
      else Inr (map (\<lambda>k. fw ! (0x200 + element * 0x10 + k)) [0..<len]))"
  by (simp add: pmm_record_get_def N810BM_PMM_BLOCK_SIZE_def N810BM_PMM_GROUP_SIZE_def
        N810BM_PMM_ELEM_SIZE_def Let_def)

lemma errno_nonzero: "EINVAL \<noteq> 0" "ENOENT \<noteq> 0" "EOPNOTSUPP \<noteq> 0" "EILSEQ \<noteq> 0"
  by (simp_all add: EINVAL_def ENOENT_def EOPNOTSUPP_def EILSEQ_def)

lemma parse_block_markers_bad:
  assumes "\<not> pmm_markers_ok fw"
  shows "n810bm_parse_pmm_block bm fw uninit = (- EOPNOTSUPP, n810bm_adc_calib_set_defaults bm)"
proof -
  consider (size) "length fw \<noteq> 0x600"
    | (inactive) "length fw = 0x600" "fw ! 16 AND 2 = 0"
    | (marker) "length fw = 0x600" "fw ! 16 AND 2 \<noteq> 0" "fw ! 0x200 \<noteq> 1 \<or> fw ! 0x210 \<noteq> 1"
    using assms by (auto simp add: pmm_markers_ok_def)
  then show ?thesis
  proof cases
    case size
    then show ?thesis
      by (simp add: n810bm_parse_pmm_block_def record_get_group1 Let_def or_eq_0_iff
            errno_nonzero n810bm_parse_pmm_group2_def)
  next
    case inactive
    then show ?thesis
      by (simp add: n810bm_parse_pmm_block_def record_get_group1 Let_def or_eq_0_iff
            errno_nonzero n810bm_parse_pmm_group2_def)
  next
    case marker
    then show ?thesis
      by (auto simp add: n810bm_parse_pmm_block_def record_get_group1 Let_def or_eq_0_iff
            errno_nonzero n810bm_parse_pmm_group2_def)
  qed
qed

lemma parse_block_markers_ok:
  assumes "pmm_markers_ok fw"
  shows "n810bm_parse_pmm_block bm fw uninit =
     (case n810bm_parse_pmm_group1 (n810bm_adc_calib_set_defaults bm) fw of
        (err, bm1) \<Rightarrow>
          if err \<noteq> 0 then (err, bm1)
          else (case sanity_checks (calib bm1) 0 of
                  Inl adc_calib \<Rightarrow> (- EILSEQ, bm1)
                | Inr count \<Rightarrow> if count \<noteq> 7 then (- EILSEQ, bm1) else (0, bm1)))"
  using assms
  by (simp add: n810bm_parse_pmm_block_def record_get_group1 Let_def pmm_markers_ok_def)

lemma group1_parse:
  assumes "pmm_markers_ok fw" "calib_signature (calib bm) = default_signature"
  shows "fst (n810bm_parse_pmm_group1 bm fw) =
           (if list_all (record_has_slot fw) (pmm_adc_ids_1 @ pmm_adc_ids_2 @ pmm_adc_ids_3)
            then 0 else - EINVAL)"
    and "calib_signature (calib (snd (n810bm_parse_pmm_group1 bm fw))) = default_signature"
proof -
  obtain bytes where b: "pmm_record_get fw 12 1 2 0 = Inr bytes"
    using assms(1) by (simp add: record_get_group1 pmm_markers_ok_def)
  obtain bm1 where e: "group1_element2 bm (group1_element_of bytes) = Inr bm1"
    using element2_ok by blast
  have s1: "calib_signature (calib bm1) = default_signature"
    using assms(2) e by (rule element2_signature)
  have p: "n810bm_parse_pmm_group1 bm fw = group1_lists bm1 fw"
    by (simp only: n810bm_parse_pmm_group1_def b e sum.case)
  show "fst (n810bm_parse_pmm_group1 bm fw) =
           (if list_all (record_has_slot fw) (pmm_adc_ids_1 @ pmm_adc_ids_2 @ pmm_adc_ids_3)
            then 0 else - EINVAL)"
    unfolding p by (rule lists_err)
  show "calib_signature (calib (snd (n810bm_parse_pmm_group1 bm fw))) = default_signature"
    unfolding p using s1 by (rule lists_signature)
qed

lemma populated_of_signature:
  "populated_ids t = map fst (filter (\<lambda>p. snd p \<noteq> 0xFF) (calib_signature t))"
  by (induction t) (simp_all add: populated_ids_def calib_signature_def)

lemma populated_default:
  assumes "calib_signature t = default_signature"
  shows "populated_ids t =
     [0xFE, 0x01, 0x02, 0x03, 0x04, 0x05, 0x06, 0x07, 0x08, 0x0E, 0x13, 0x14, 0x15, 0x16, 0x17]"
  unfolding populated_of_signature assms by (simp add: default_signature_def)

lemma parse_block_signature:
  "calib_signature (calib (snd (n810bm_parse_pmm_block bm fw uninit))) = default_signature"
proof (cases "pmm_markers_ok fw")
  case False
  then show ?thesis
    by (simp add: parse_block_markers_bad set_defaults_signature)
next
  case True
  have "snd (n810bm_parse_pmm_block bm fw uninit) =
        snd (n810bm_parse_pmm_group1 (n810bm_adc_calib_set_defaults bm) fw)"
    by (simp add: parse_block_markers_ok [OF True] case_prod_beta split: sum.splits)
  then show ?thesis
    using group1_parse(2) [OF True set_defaults_signature] by simp
qed

lemma parse_block_err:
  assumes "pmm_markers_ok fw"
  shows "fst (n810bm_parse_pmm_block bm fw uninit) =
     (if \<not> list_all (record_has_slot fw) group1_ids then - EINVAL
      else if calib_in_range (calib (snd (n810bm_parse_pmm_block bm fw uninit))) then 0
      else - EILSEQ)"
proof -
  let ?g = "n810bm_parse_pmm_group1 (n810bm_adc_calib_set_defaults bm) fw"
  have sg: "calib_signature (calib (snd ?g)) = default_signature"
    using group1_parse(2) [OF assms set_defaults_signature] .
  have eg: "fst ?g = (if list_all (record_has_slot fw) group1_ids then 0 else - EINVAL)"
    using group1_parse(1) [OF assms set_defaults_signature] by (simp add: group1_ids_def)
  have snd_eq: "snd (n810bm_parse_pmm_block bm fw uninit) = snd ?g"
    by (simp add: parse_block_markers_ok [OF assms] case_prod_beta split: sum.splits)
  note u = sanity_unrolled [OF sg]
  have r: "calib_in_range (calib (snd ?g)) \<longleftrightarrow> (\<exists>n. sanity_checks (calib (snd ?g)) 0 = Inr n)"
    unfolding u calib_in_range_def
    by (auto simp add: not_less word_sle_eq word_sless_alt)
  have seven: "sanity_checks (calib (snd ?g)) 0 = Inr n \<Longrightarrow> n = 7" for n
    unfolding u by (auto split: if_splits)
  show ?thesis
  proof (cases "list_all (record_has_slot fw) group1_ids")
    case False
    then show ?thesis
      using eg by (simp add: parse_block_markers_ok [OF assms] case_prod_beta errno_nonzero)
  next
    case True
    then have z: "fst ?g = 0" using eg by simp
    show ?thesis
    proof (cases "sanity_checks (calib (snd ?g)) 0")
      case (Inl c)
      then show ?thesis
        using True z r
        by (simp add: parse_block_markers_ok [OF assms] case_prod_beta snd_eq)
    next
      case (Inr n)
      then show ?thesis
        using True z r seven [OF Inr]
        by (simp add: parse_block_markers_ok [OF assms] case_prod_beta snd_eq)
    qed
  qed
qed

lemma extract_cong:
  assumes "calib bm = calib bm'"
  shows "fst (extract_group1_elem bm fw ids m1 m2) = fst (extract_group1_elem bm' fw ids m1 m2) \<and>
         calib (snd (extract_group1_elem bm fw ids m1 m2)) =
         calib (snd (extract_group1_elem bm' fw ids m1 m2))"
  using assms
proof (induction ids arbitrary: bm bm')
  case Nil
  then show ?case by simp
next
  case (Cons pid ids)
  show ?case
  proof (cases "pmm_record_get fw 12 1 (unat (pid + 3)) 0")
    case (Inl err)
    then show ?thesis
      using Cons.IH [OF Cons.prems] by simp
  next
    case (Inr bytes)
    have g: "n810bm_get_adc_calib bm' (ucast (elem_id (group1_element_of bytes))) =
             n810bm_get_adc_calib bm (ucast (elem_id (group1_element_of bytes)))"
      by (rule get_adc_calib_state)
    show ?thesis
    proof (cases "n810bm_get_adc_calib bm (ucast (elem_id (group1_element_of bytes)))")
      case None
      with Inr g Cons.prems show ?thesis by (simp add: Let_def)
    next
      case (Some idx)
      let ?u = "(calib bm)[idx := (calib bm ! idx)
          \<lparr>field1 := elem_field1 (group1_element_of bytes) AND m1,
           field2 := elem_field2 (group1_element_of bytes) AND m2\<rparr>]"
      have c: "calib (bm\<lparr>calib := ?u\<rparr>) = calib (bm'\<lparr>calib := ?u\<rparr>)"
        by simp
      show ?thesis
        using Inr Some g Cons.prems Cons.IH [OF c] Cons.IH [OF Cons.prems]
        by (simp add: Let_def)
    qed
  qed
qed

lemma element2_cong:
  assumes "calib bm = calib bm'"
  shows "(case group1_element2 bm elem of Inl e \<Rightarrow> Inl e | Inr b \<Rightarrow> Inr (calib b)) =
         (case group1_element2 bm' elem of Inl e \<Rightarrow> Inl e | Inr b \<Rightarrow> Inr (calib b))"
  using assms
  by (simp add: group1_element2_def get_adc_calib_state [of bm' _ bm] split: option.splits)

lemma lists_cong:
  assumes "calib bm = calib bm'"
  shows "fst (group1_lists bm fw) = fst (group1_lists bm' fw) \<and>
         calib (snd (group1_lists bm fw)) = calib (snd (group1_lists bm' fw))"
proof -
  let ?r1 = "extract_group1_elem bm fw pmm_adc_ids_1 0xFFFFFFFF 0xFFFFFFFF"
  let ?r1' = "extract_group1_elem bm' fw pmm_adc_ids_1 0xFFFFFFFF 0xFFFFFFFF"
  let ?r2 = "extract_group1_elem (snd ?r1) fw pmm_adc_ids_2 0xFFFFFFFF 0"
  let ?r2' = "extract_group1_elem (snd ?r1') fw pmm_adc_ids_2 0xFFFFFFFF 0"
  let ?r3 = "extract_group1_elem (snd ?r2) fw pmm_adc_ids_3 0xFFFFFFFF 0x0000FFFF"
  let ?r3' = "extract_group1_elem (snd ?r2') fw pmm_adc_ids_3 0xFFFFFFFF 0x0000FFFF"
  have e1: "fst ?r1 = fst ?r1' \<and> calib (snd ?r1) = calib (snd ?r1')"
    using assms by (rule extract_cong)
  then have e2: "fst ?r2 = fst ?r2' \<and> calib (snd ?r2) = calib (snd ?r2')"
    by (intro extract_cong) simp
  then have e3: "fst ?r3 = fst ?r3' \<and> calib (snd ?r3) = calib (snd ?r3')"
    by (intro extract_cong) simp
  show ?thesis
    using e1 e2 e3 by (simp add: group1_lists_def case_prod_beta)
qed

lemma group1_cong:
  assumes "calib bm = calib bm'"
  shows "fst (n810bm_parse_pmm_group1 bm fw) = fst (n810bm_parse_pmm_group1 bm' fw) \<and>
         calib (snd (n810bm_parse_pmm_group1 bm fw)) =
         calib (snd (n810bm_parse_pmm_group1 bm' fw))"
proof (cases "pmm_record_get fw 12 1 2 0")
  case (Inl err)
  then show ?thesis
    using assms by (simp only: n810bm_parse_pmm_group1_def sum.case) simp
next
  case (Inr bytes)
  obtain b1 where b1: "group1_element2 bm (group1_element_of bytes) = Inr b1"
    using element2_ok by blast
  obtain b1' where b1': "group1_element2 bm' (group1_element_of bytes) = Inr b1'"
    using element2_ok by blast
  have "calib b1 = calib b1'"
    using element2_cong [OF assms, of "group1_element_of bytes"] b1 b1' by simp
  then show ?thesis
    using lists_cong [of b1 b1' fw]
    by (simp only: n810bm_parse_pmm_group1_def Inr b1 b1' sum.case)
qed

lemma set_defaults_cong:
  "calib (n810bm_adc_calib_set_defaults bm) = calib (n810bm_adc_calib_set_defaults bm')"
  by (simp only: set_defaults_calib)

lemma parse_block_table_independent:
  "fst (n810bm_parse_pmm_block bm fw uninit) = fst (n810bm_parse_pmm_block bm' fw uninit') \<and>
   calib (snd (n810bm_parse_pmm_block bm fw uninit)) =
   calib (snd (n810bm_parse_pmm_block bm' fw uninit'))"
proof (cases "pmm_markers_ok fw")
  case False
  then show ?thesis
    by (simp add: parse_block_markers_bad set_defaults_cong [of bm bm'])
next
  case True
  let ?g = "n810bm_parse_pmm_group1 (n810bm_adc_calib_set_defaults bm) fw"
  let ?g' = "n810bm_parse_pmm_group1 (n810bm_adc_calib_set_defaults bm') fw"
  have g: "fst ?g = fst ?g' \<and> calib (snd ?g) = calib (snd ?g')"
    using set_defaults_cong [of bm bm'] by (rule group1_cong)
  show ?thesis
    using g
    by (simp add: parse_block_markers_ok [OF True] case_prod_beta split: sum.splits)
qed

text \<open>
  C2 as stated fails. A successful parse leaves 15 populated slots, not 7. And a parse
  that fails its range check leaves the table changed: here the controller held a valid
  table (battery voltage \<open>field1 = 2527\<close>), the parse of a blob with an out-of-range
  record returns \<open>-EILSEQ\<close>, and the table then holds that record's \<open>field1 = 0\<close>.
\<close>

theorem parse_pmm_block_not_atomic_counterexample:
  "fst (n810bm_parse_pmm_block n810bm_zeroed pmm_blob_markers 0) = 0 \<and>
   length (populated_ids (calib n810bm_calibrated)) = 15 \<and>
   field1 (calib n810bm_calibrated ! 2) = 2527 \<and>
   fst (n810bm_parse_pmm_block n810bm_calibrated pmm_blob_out_of_range 0) = - EILSEQ \<and>
   field1 (calib (snd (n810bm_parse_pmm_block n810bm_calibrated pmm_blob_out_of_range 0)) ! 2) = 0"
  by code_simp

text \<open>
  C2, amended. After every call of \<open>n810bm_parse_pmm_block\<close> the table has 25 slots of
  which exactly the 15 channels of the defaults are populated, the 7 required channels
  among them. If the size, the group mask or a marker is wrong the result is
  \<open>-EOPNOTSUPP\<close> and the table holds the defaults. Otherwise the result is
  \<open>-EINVAL\<close> if a fetched record's id byte has no slot, else 0 if the table left
  satisfies every bound and \<open>-EILSEQ\<close> if not. So the parse succeeds exactly for a
  blob with valid markers, records with slots and values in range. The table is
  overwritten in place and not restored on an error: the result and the table left are
  the same whatever the controller held before.
\<close>

theorem parse_pmm_block_checked:
  "populated_ids (calib (snd (n810bm_parse_pmm_block bm fw uninit))) =
     [0xFE, 0x01, 0x02, 0x03, 0x04, 0x05, 0x06, 0x07, 0x08, 0x0E, 0x13, 0x14, 0x15, 0x16, 0x17] \<and>
   set [N810BM_PMM_ADC_BATVOLT, N810BM_PMM_ADC_BSI, N810BM_PMM_ADC_BATCURR,
        N810BM_PMM_ADC_0xFE, N810BM_PMM_ADC_CHGVOLT, N810BM_PMM_ADC_BATTEMP,
        N810BM_PMM_ADC_BKUPVOLT]
     \<subseteq> set (populated_ids (calib (snd (n810bm_parse_pmm_block bm fw uninit)))) \<and>
   length (calib (snd (n810bm_parse_pmm_block bm fw uninit))) = 25 \<and>
   (\<not> pmm_markers_ok fw \<longrightarrow>
      n810bm_parse_pmm_block bm fw uninit = (- EOPNOTSUPP, n810bm_adc_calib_set_defaults bm)) \<and>
   (pmm_markers_ok fw \<longrightarrow>
      fst (n810bm_parse_pmm_block bm fw uninit) =
        (if \<not> list_all (record_has_slot fw) group1_ids then - EINVAL
         else if calib_in_range (calib (snd (n810bm_parse_pmm_block bm fw uninit))) then 0
         else - EILSEQ)) \<and>
   (fst (n810bm_parse_pmm_block bm fw uninit) = 0 \<longleftrightarrow>
      pmm_markers_ok fw \<and> list_all (record_has_slot fw) group1_ids \<and>
      calib_in_range (calib (snd (n810bm_parse_pmm_block bm fw uninit)))) \<and>
   fst (n810bm_parse_pmm_block bm fw uninit) = fst (n810bm_parse_pmm_block bm' fw uninit') \<and>
   calib (snd (n810bm_parse_pmm_block bm fw uninit)) =
     calib (snd (n810bm_parse_pmm_block bm' fw uninit'))"
proof -
  let ?r = "n810bm_parse_pmm_block bm fw uninit"
  note sig = parse_block_signature [of bm fw uninit]
  have p: "populated_ids (calib (snd ?r)) =
     [0xFE, 0x01, 0x02, 0x03, 0x04, 0x05, 0x06, 0x07, 0x08, 0x0E, 0x13, 0x14, 0x15, 0x16, 0x17]"
    using sig by (rule populated_default)
  have req: "set [N810BM_PMM_ADC_BATVOLT, N810BM_PMM_ADC_BSI, N810BM_PMM_ADC_BATCURR,
        N810BM_PMM_ADC_0xFE, N810BM_PMM_ADC_CHGVOLT, N810BM_PMM_ADC_BATTEMP,
        N810BM_PMM_ADC_BKUPVOLT] \<subseteq> set (populated_ids (calib (snd ?r)))"
    unfolding p by (simp add: pmm_adc_id_defs)
  have len: "length (calib (snd ?r)) = 25"
    using sig by (rule signature_length)
  have bad: "?r = (- EOPNOTSUPP, n810bm_adc_calib_set_defaults bm)" if "\<not> pmm_markers_ok fw"
    using that by (rule parse_block_markers_bad)
  have ok: "fst ?r =
        (if \<not> list_all (record_has_slot fw) group1_ids then - EINVAL
         else if calib_in_range (calib (snd ?r)) then 0 else - EILSEQ)" if "pmm_markers_ok fw"
    using that by (rule parse_block_err)
  have iff: "fst ?r = 0 \<longleftrightarrow>
      pmm_markers_ok fw \<and> list_all (record_has_slot fw) group1_ids \<and>
      calib_in_range (calib (snd ?r))"
  proof (cases "pmm_markers_ok fw")
    case True
    show ?thesis
      using True by (simp add: ok [OF True] errno_nonzero)
  next
    case False
    show ?thesis
      using False by (simp add: bad [OF False] errno_nonzero)
  qed
  from p req len bad ok iff parse_block_table_independent [of bm fw uninit bm' uninit']
  show ?thesis
    by blast
qed

theorem parse_pmm_block_checked_witness:
  "pmm_markers_ok pmm_blob_markers \<and>
   list_all (record_has_slot pmm_blob_markers) group1_ids \<and>
   calib_in_range (calib (snd (n810bm_parse_pmm_block n810bm_zeroed pmm_blob_markers 0))) \<and>
   fst (n810bm_parse_pmm_block n810bm_zeroed pmm_blob_markers 0) = 0 \<and>
   pmm_markers_ok pmm_blob_out_of_range \<and>
   list_all (record_has_slot pmm_blob_out_of_range) group1_ids \<and>
   \<not> calib_in_range (calib (snd (n810bm_parse_pmm_block n810bm_zeroed pmm_blob_out_of_range 0))) \<and>
   fst (n810bm_parse_pmm_block n810bm_zeroed pmm_blob_out_of_range 0) = - EILSEQ \<and>
   \<not> pmm_markers_ok pmm_blob_no_magic \<and>
   fst (n810bm_parse_pmm_block n810bm_zeroed pmm_blob_no_magic 0) = - EOPNOTSUPP"
proof -
  have m1: "pmm_markers_ok pmm_blob_markers"
    by code_simp
  have h1: "list_all (record_has_slot pmm_blob_markers) group1_ids"
    by code_simp
  have c1: "calib_in_range (calib (snd (n810bm_parse_pmm_block n810bm_zeroed pmm_blob_markers 0)))"
    by code_simp
  have r1: "fst (n810bm_parse_pmm_block n810bm_zeroed pmm_blob_markers 0) = 0"
    using parse_pmm_block_checked [of n810bm_zeroed pmm_blob_markers 0] m1 h1 c1 by blast
  have m2: "pmm_markers_ok pmm_blob_out_of_range"
    by code_simp
  have h2: "list_all (record_has_slot pmm_blob_out_of_range) group1_ids"
    by code_simp
  have c2: "\<not> calib_in_range
      (calib (snd (n810bm_parse_pmm_block n810bm_zeroed pmm_blob_out_of_range 0)))"
    by code_simp
  have r2: "fst (n810bm_parse_pmm_block n810bm_zeroed pmm_blob_out_of_range 0) = - EILSEQ"
    using parse_pmm_block_checked [of n810bm_zeroed pmm_blob_out_of_range 0] m2 h2 c2 by simp
  have m3: "\<not> pmm_markers_ok pmm_blob_no_magic"
    by code_simp
  have r3: "fst (n810bm_parse_pmm_block n810bm_zeroed pmm_blob_no_magic 0) = - EOPNOTSUPP"
    using parse_pmm_block_checked [of n810bm_zeroed pmm_blob_no_magic 0] m3 by simp
  from m1 h1 c1 r1 m2 h2 c2 r2 m3 r3 show ?thesis
    by blast
qed

end
